theory Spec2Isabelle
  imports Complex_Main "HOL-Library.Sublist"
begin

section \<open>JavaScript values and string operations used by the client\<close>

text \<open>
  The client (\<^verbatim>\<open>TrackHSClient\<close> in \<^verbatim>\<open>fetch-reservations.js\<close>) reads a handful of
  fields of decoded JSON payloads and tests them for truthiness. A field is modelled as a
  \<open>jsval\<close>: absent (\<open>undefined\<close>), \<open>null\<close>, a boolean, an integral number or a string.
  The numbers meant are the integers that a JavaScript number holds exactly (magnitude at
  most \<open>2\<^sup>5\<^sup>3\<close>). A string is the list of its code units, taken from the range below
  256; all the characters the code looks for are ASCII.
\<close>

datatype jsval = JUndefined | JNull | JBool bool | JNum int | JStr string

fun truthy :: "jsval \<Rightarrow> bool" where
  "truthy JUndefined = False"
| "truthy JNull = False"
| "truthy (JBool b) = b"
| "truthy (JNum n) = (n \<noteq> 0)"
| "truthy (JStr s) = (s \<noteq> [])"

text \<open>\<^verbatim>\<open>s.split(sep)[0]\<close> for a one-character separator: the text before its first occurrence
  (all of \<open>s\<close> when it does not occur).\<close>

definition split0 :: "char \<Rightarrow> string \<Rightarrow> string" where
  "split0 sep s = takeWhile (\<lambda>c. c \<noteq> sep) s"

text \<open>\<^verbatim>\<open>s.startsWith(p)\<close>.\<close>

definition startsWith :: "string \<Rightarrow> string \<Rightarrow> bool" where
  "startsWith s p = (take (length p) s = p)"

text \<open>\<^verbatim>\<open>s.includes(t)\<close>: \<open>t\<close> occurs in \<open>s\<close> as a contiguous substring.\<close>

fun includesStr :: "string \<Rightarrow> string \<Rightarrow> bool" where
  "includesStr [] t = (t = [])"
| "includesStr (c # s) t = (startsWith (c # s) t \<or> includesStr s t)"

text \<open>\<^verbatim>\<open>xs.join(sep)\<close>.\<close>

fun join :: "string \<Rightarrow> string list \<Rightarrow> string" where
  "join sep [] = []"
| "join sep [x] = x"
| "join sep (x # y # ys) = x @ sep @ join sep (y # ys)"

section \<open>Transport: the cookie jar\<close>

text \<open>
  In \<^verbatim>\<open>makeRequest\<close>, every \<^verbatim>\<open>Set-Cookie\<close> value of a response is applied to
  \<^verbatim>\<open>this.cookies\<close> in turn:
  \<^verbatim>\<open>
    const cookieName = cookie.split("=")[0];
    this.cookies = this.cookies.filter((c) => !c.startsWith(cookieName));
    this.cookies.push(cookie.split(";")[0]);
  \<close>
\<close>

definition cookieName :: "string \<Rightarrow> string" where
  "cookieName cookie = split0 (CHR ''='') cookie"

definition applySetCookie :: "string list \<Rightarrow> string \<Rightarrow> string list" where
  "applySetCookie cookies cookie =
     filter (\<lambda>c. \<not> startsWith c (cookieName cookie)) cookies @ [split0 (CHR '';'') cookie]"

text \<open>\<^verbatim>\<open>setCookies.forEach(...)\<close>, guarded by \<^verbatim>\<open>if (setCookies)\<close>: a response without the
  header leaves the jar as it is.\<close>

definition storeCookies :: "string list \<Rightarrow> string list option \<Rightarrow> string list" where
  "storeCookies cookies setCookies =
     (case setCookies of None \<Rightarrow> cookies | Some cs \<Rightarrow> foldl applySetCookie cookies cs)"

text \<open>The name of an entry of the jar is the text before its first \<open>=\<close>; the jar keeps names
  unique when no two entries share one.\<close>

definition uniqueNames :: "string list \<Rightarrow> bool" where
  "uniqueNames cookies = distinct (map cookieName cookies)"

section \<open>Errors\<close>

text \<open>
  The code throws plain \<^verbatim>\<open>Error\<close> objects that differ in their message; each message is a
  constructor here, with the status code it names. \<open>TypeError\<close> is the runtime's own
  exception for a property read on \<open>null\<close> or a method call on a value that has no such
  method, \<open>NetworkError\<close> the rejection of the request promise, \<open>FsError\<close> a failed
  file-system call with its code.
\<close>

datatype error =
    DomainRequired
  | NetworkError
  | TypeError
  | TokenStatus int
  | TokenMissing
  | SecurityTokenNotFound
  | LoginPageStatus int
  | InvalidCredentials
  | LoginStatus int
  | ReservationsStatus int
  | FsError string

text \<open>The specification's \<open>AuthError\<close>: the failures of the login flow and of the token
  endpoint.\<close>

fun isAuthError :: "error \<Rightarrow> bool" where
  "isAuthError (TokenStatus _) = True"
| "isAuthError TokenMissing = True"
| "isAuthError SecurityTokenNotFound = True"
| "isAuthError (LoginPageStatus _) = True"
| "isAuthError InvalidCredentials = True"
| "isAuthError (LoginStatus _) = True"
| "isAuthError _ = False"

section \<open>Session Establisher: the security-token patterns\<close>

text \<open>
  \<^verbatim>\<open>extractSecurityToken\<close> tries four regular expressions in order. They are built from
  single characters (compared without regard to ASCII case, flag \<^verbatim>\<open>i\<close>), character
  classes, greedy \<^verbatim>\<open>*\<close> and \<^verbatim>\<open>+\<close> over a class, and one capturing group around a
  greedy \<^verbatim>\<open>+\<close>. The matcher below is the backtracking semantics of
  \<^verbatim>\<open>String.prototype.match\<close> on such patterns: the leftmost start position that admits
  a match, and there the first match in the order that tries the longest repetition first.
\<close>

datatype cls = Lit char | OneOf string | NoneOf string | Space

definition lower :: "char \<Rightarrow> char" where
  "lower c =
     (case map_of (zip ''ABCDEFGHIJKLMNOPQRSTUVWXYZ'' ''abcdefghijklmnopqrstuvwxyz'') c of
        Some l \<Rightarrow> l | None \<Rightarrow> c)"

text \<open>\<^verbatim>\<open>\s\<close> on code units below 256: tab, line feed, vertical tab, form feed, carriage
  return, space and the no-break space.\<close>

definition whitespace :: string where
  "whitespace = [CHR 0x09, CHR 0x0A, CHR 0x0B, CHR 0x0C, CHR 0x0D, CHR 0x20, CHR 0xA0]"

fun accepts :: "cls \<Rightarrow> char \<Rightarrow> bool" where
  "accepts (Lit c) x = (lower x = lower c)"
| "accepts (OneOf cs) x = (x \<in> set cs)"
| "accepts (NoneOf cs) x = (x \<notin> set cs)"
| "accepts Space x = (x \<in> set whitespace)"

datatype item = One cls | Star cls | Plus cls | Cap cls

fun firstSome :: "('a \<Rightarrow> 'b option) \<Rightarrow> 'a list \<Rightarrow> 'b option" where
  "firstSome f [] = None"
| "firstSome f (x # xs) = (case f x of Some y \<Rightarrow> Some y | None \<Rightarrow> firstSome f xs)"

text \<open>How many leading characters a greedy repetition of a class takes at most.\<close>

definition greedy :: "cls \<Rightarrow> string \<Rightarrow> nat" where
  "greedy c s = length (takeWhile (accepts c) s)"

text \<open>\<open>matchHere p s\<close>: the captures of the first match of \<open>p\<close> that starts at the
  beginning of \<open>s\<close>. \<open>Cap c\<close> is the group \<^verbatim>\<open>(c+)\<close>.\<close>

fun matchHere :: "item list \<Rightarrow> string \<Rightarrow> string list option" where
  "matchHere [] s = Some []"
| "matchHere (One c # r) s =
     (case s of [] \<Rightarrow> None | x # xs \<Rightarrow> if accepts c x then matchHere r xs else None)"
| "matchHere (Star c # r) s =
     firstSome (\<lambda>k. matchHere r (drop k s)) (rev [0..<Suc (greedy c s)])"
| "matchHere (Plus c # r) s =
     firstSome (\<lambda>k. matchHere r (drop k s)) (rev [1..<Suc (greedy c s)])"
| "matchHere (Cap c # r) s =
     firstSome (\<lambda>k. map_option (\<lambda>caps. take k s # caps) (matchHere r (drop k s)))
       (rev [1..<Suc (greedy c s)])"

fun search :: "item list \<Rightarrow> string \<Rightarrow> string list option" where
  "search p [] = matchHere p []"
| "search p (x # xs) =
     (case matchHere p (x # xs) of Some caps \<Rightarrow> Some caps | None \<Rightarrow> search p xs)"

definition lit :: "string \<Rightarrow> item list" where
  "lit s = map (\<lambda>c. One (Lit c)) s"

definition quote :: cls where
  "quote = OneOf [CHR 0x22, CHR 0x27]"

definition notQuote :: cls where
  "notQuote = NoneOf [CHR 0x22, CHR 0x27]"

definition notGt :: cls where
  "notGt = NoneOf ''>''"

text \<open>
  \<^verbatim>\<open>
  /<input[^>]*name=["']security["'][^>]*value=["']([^"']+)["']/i,
  /<input[^>]*value=["']([^"']+)["'][^>]*name=["']security["']/i,
  /name=["']security["'][^>]*value=["']([^"']+)["']/i,
  /security["']\s+value=["']([^"']+)["']/i,
  \<close>
\<close>

definition patterns :: "item list list" where
  "patterns =
    [ lit ''<input'' @ [Star notGt] @ lit ''name='' @ [One quote] @ lit ''security''
        @ [One quote, Star notGt] @ lit ''value='' @ [One quote, Cap notQuote, One quote],
      lit ''<input'' @ [Star notGt] @ lit ''value='' @ [One quote, Cap notQuote, One quote]
        @ [Star notGt] @ lit ''name='' @ [One quote] @ lit ''security'' @ [One quote],
      lit ''name='' @ [One quote] @ lit ''security'' @ [One quote, Star notGt]
        @ lit ''value='' @ [One quote, Cap notQuote, One quote],
      lit ''security'' @ [One quote, Plus Space] @ lit ''value=''
        @ [One quote, Cap notQuote, One quote] ]"

text \<open>The loop over the candidates: \<^verbatim>\<open>if (match && match[1]) return match[1]\<close>, and the
  \<^verbatim>\<open>throw\<close> after it.\<close>

fun firstToken :: "item list list \<Rightarrow> string \<Rightarrow> error + string" where
  "firstToken [] html = Inl SecurityTokenNotFound"
| "firstToken (p # ps) html =
     (case search p html of
        Some (m1 # _) \<Rightarrow> if m1 \<noteq> [] then Inr m1 else firstToken ps html
      | _ \<Rightarrow> firstToken ps html)"

definition extractSecurityToken :: "string \<Rightarrow> error + string" where
  "extractSecurityToken html = firstToken patterns html"

text \<open>The input element of the specification's example login page.\<close>

definition securityInput :: string where
  \<open>securityInput = ''<input type="hidden" name="security" value="abc123">''\<close>

section \<open>Transport: requests and responses\<close>

text \<open>The fields of a \<^verbatim>\<open>TrackHSClient\<close> instance.\<close>

record client =
  domain :: string
  baseUrl :: string
  token :: jsval
  cookies :: "string list"

text \<open>The constructor: \<^verbatim>\<open>if (!domain) throw\<close>; no token, no cookies. A missing domain is
  \<open>None\<close>; an empty string is falsy as well.\<close>

definition newClient :: "string option \<Rightarrow> error + client" where
  "newClient d =
     (case d of
        None \<Rightarrow> Inl DomainRequired
      | Some name \<Rightarrow>
          if name = [] then Inl DomainRequired
          else Inr \<lparr>domain = name, baseUrl = name @ ''.trackhs.com'', token = JNull, cookies = []\<rparr>)"

text \<open>The \<^verbatim>\<open>options\<close> argument of \<^verbatim>\<open>makeRequest\<close> and the request handed to
  \<^verbatim>\<open>https.request\<close>. Header objects are maps from the header name.\<close>

record options =
  o_method :: string
  o_path :: string
  o_headers :: "(string \<times> jsval) list"

record request =
  hostname :: string
  r_method :: string
  path :: string
  headers :: "string \<rightharpoonup> jsval"
  postData :: "string option"

text \<open>
  The decoded body of a response: \<^verbatim>\<open>JSON.parse\<close> succeeded and gave an object, of which
  the client reads the fields below (\<open>embedded_reservations\<close> is
  \<^verbatim>\<open>data._embedded.reservations\<close>, \<open>None\<close> when \<^verbatim>\<open>_embedded\<close> or the array is missing;
  \<open>total_field\<close> and \<open>size_field\<close> are JSON integers or missing), or gave \<open>null\<close>, or the
  body is a string (text that is not JSON, or a JSON string). A JSON number, boolean or
  array has none of these properties and behaves as the object with every field missing.
  Decompression and parsing happen before the client sees the envelope and are part of
  the network here.
\<close>

record 'r payload =
  success_field :: jsval
  token_field :: jsval
  embedded_reservations :: "'r list option"
  total_field :: "int option"
  size_field :: "int option"

datatype 'r body = Text string | Object "'r payload" | NullBody

record 'r response =
  status :: int
  set_cookie :: "string list option"
  location :: "string option"
  data :: "'r body"

text \<open>
  What the program takes from its platform: the network, which answers the sequence of
  requests sent so far (the last one is the current request) with a decoded response or a
  failure; \<^verbatim>\<open>Date.now()\<close> at the time of the \<open>n\<close>-th request;
  \<^verbatim>\<open>URLSearchParams.prototype.toString\<close>; \<^verbatim>\<open>JSON.stringify(_, null, 2)\<close> on the opaque
  records; the working directory and the \<^verbatim>\<open>OUTPUT_DIR\<close> variable. The pauses between
  pages and the console output are not modelled.
\<close>

record 'r env =
  net :: "request list \<Rightarrow> error + 'r response"
  now :: "nat \<Rightarrow> int"
  urlencode :: "(string \<times> jsval) list \<Rightarrow> string"
  stringify :: "'r list \<Rightarrow> string"
  cwd :: "string list"
  OUTPUT_DIR :: "string option"

text \<open>The string a template literal makes of a value (numbers of magnitude below
  \<open>10\<^sup>2\<^sup>1\<close>, which are printed in plain decimal).\<close>

fun showNat :: "nat \<Rightarrow> string" where
  "showNat n =
     (if n < 10 then [''0123456789'' ! n]
      else showNat (n div 10) @ [''0123456789'' ! (n mod 10)])"

fun jsToString :: "jsval \<Rightarrow> string" where
  "jsToString JUndefined = ''undefined''"
| "jsToString JNull = ''null''"
| "jsToString (JBool b) = (if b then ''true'' else ''false'')"
| "jsToString (JNum n) = (if n < 0 then ''-'' @ showNat (nat (- n)) else showNat (nat n))"
| "jsToString (JStr s) = s"

definition defaultHeaders :: "(string \<times> jsval) list" where
  \<open>defaultHeaders =
    [ (''accept'', JStr ''application/json, text/javascript, */*; q=0.01''),
      (''accept-encoding'', JStr ''gzip, deflate, br, zstd''),
      (''accept-language'', JStr ''en-US,en;q=0.9''),
      (''cache-control'', JStr ''no-cache''),
      (''dnt'', JStr ''1''),
      (''pragma'', JStr ''no-cache''),
      (''sec-ch-ua'', JStr ''"Not(A:Brand";v="8", "Chromium";v="144", "Google Chrome";v="144"''),
      (''sec-ch-ua-mobile'', JStr ''?0''),
      (''sec-ch-ua-platform'', JStr ''"macOS"''),
      (''sec-fetch-dest'', JStr ''empty''),
      (''sec-fetch-mode'', JStr ''cors''),
      (''sec-fetch-site'', JStr ''same-origin''),
      (''user-agent'', JStr ''Mozilla/5.0 (Macintosh; Intel Mac OS X 10_15_7) AppleWebKit/537.36 (KHTML, like Gecko) Chrome/144.0.0.0 Safari/537.36''),
      (''x-requested-with'', JStr ''XMLHttpRequest'') ]\<close>

text \<open>\<^verbatim>\<open>Buffer.byteLength\<close>: UTF-8 takes one byte for a code unit below 128 and two for the
  others of the range.\<close>

definition byteLength :: "string \<Rightarrow> nat" where
  "byteLength s = length s + length (filter (\<lambda>c. (128::nat) \<le> of_char c) s)"

text \<open>The headers before the caller's: the defaults, the cookie header when the jar is not
  empty, the authorization header when a token is held.\<close>

definition sessionHeaders :: "client \<Rightarrow> string \<rightharpoonup> jsval" where
  "sessionHeaders c =
     (let h0 = map_of defaultHeaders;
          h1 = (if cookies c \<noteq> [] then h0(''cookie'' \<mapsto> JStr (join ''; '' (cookies c))) else h0)
      in if truthy (token c)
         then h1(''authorization'' \<mapsto> JStr (''Bearer '' @ jsToString (token c)))
         else h1)"

text \<open>\<^verbatim>\<open>reqOptions\<close>: the caller's headers win; a non-empty body adds its content type
  (unless the caller gave one) and its length in bytes.\<close>

definition buildRequest :: "client \<Rightarrow> options \<Rightarrow> string option \<Rightarrow> request" where
  "buildRequest c opts body =
     (let h = sessionHeaders c ++ map_of (o_headers opts);
          withBody = (\<lambda>b.
             let h' = (case h ''content-type'' of
                         None \<Rightarrow> h(''content-type'' \<mapsto> JStr ''application/json'')
                       | Some v \<Rightarrow> if truthy v then h
                                  else h(''content-type'' \<mapsto> JStr ''application/json''))
             in h'(''content-length'' \<mapsto> JNum (int (byteLength b))))
      in \<lparr>hostname = baseUrl c, r_method = o_method opts, path = o_path opts,
          headers = (case body of None \<Rightarrow> h | Some b \<Rightarrow> if b = [] then h else withBody b),
          postData = body\<rparr>)"

text \<open>\<^verbatim>\<open>makeRequest\<close>: send, store the response's cookies, hand the envelope back; a
  request that fails rejects the promise. The result carries the client as the call left
  it and the requests sent so far.\<close>

definition makeRequest ::
  "'r env \<Rightarrow> client \<Rightarrow> request list \<Rightarrow> options \<Rightarrow> string option
     \<Rightarrow> (error + 'r response) \<times> client \<times> request list" where
  "makeRequest e c sent opts body =
     (let sent' = sent @ [buildRequest c opts body]
      in case net e sent' of
           Inl err \<Rightarrow> (Inl err, c, sent')
         | Inr res \<Rightarrow> (Inr res, c\<lparr>cookies := storeCookies (cookies c) (set_cookie res)\<rparr>, sent'))"

text \<open>Reading a property of the decoded body: \<open>undefined\<close> on a string, a
  \<open>TypeError\<close> on \<open>null\<close>.\<close>

fun field :: "('r payload \<Rightarrow> 'a) \<Rightarrow> 'a \<Rightarrow> 'r body \<Rightarrow> error + 'a" where
  "field f undef (Text _) = Inr undef"
| "field f undef (Object p) = Inr (f p)"
| "field f undef NullBody = Inl TypeError"

section \<open>Token Acquirer\<close>

definition API_TOKEN_ENDPOINT :: string where
  "API_TOKEN_ENDPOINT = ''/owner/api-token/''"

definition RESERVATIONS_ENDPOINT :: string where
  "RESERVATIONS_ENDPOINT = ''/api/v2/pms/reservations/''"

definition PAGE_SIZE :: int where
  "PAGE_SIZE = 100"

definition tokenOptions :: "client \<Rightarrow> options" where
  "tokenOptions c =
     \<lparr>o_method = ''GET'', o_path = API_TOKEN_ENDPOINT,
      o_headers = [(''referer'', JStr (''https://'' @ baseUrl c @ ''/owner/''))]\<rparr>"

definition getApiToken ::
  "'r env \<Rightarrow> client \<Rightarrow> request list \<Rightarrow> (error + jsval) \<times> client \<times> request list" where
  "getApiToken e c sent =
     (case makeRequest e c sent (tokenOptions c) None of
        (Inl err, c', sent') \<Rightarrow> (Inl err, c', sent')
      | (Inr res, c', sent') \<Rightarrow>
          if status res \<noteq> 200 then (Inl (TokenStatus (status res)), c', sent')
          else
            (case field success_field JUndefined (data res) of
               Inl err \<Rightarrow> (Inl err, c', sent')
             | Inr ok \<Rightarrow>
                 (case field token_field JUndefined (data res) of
                    Inl err \<Rightarrow> (Inl err, c', sent')
                  | Inr t \<Rightarrow>
                      if \<not> truthy ok \<or> \<not> truthy t then (Inl TokenMissing, c', sent')
                      else (Inr t, c'\<lparr>token := t\<rparr>, sent'))))"

section \<open>Session Establisher: login\<close>

definition navigationAccept :: "string \<times> jsval" where
  "navigationAccept =
     (''accept'', JStr ''text/html,application/xhtml+xml,application/xml;q=0.9,image/avif,image/webp,image/apng,*/*;q=0.8,application/signed-exchange;v=b3;q=0.7'')"

definition loginPageOptions :: options where
  "loginPageOptions =
     \<lparr>o_method = ''GET'', o_path = ''/owner/'',
      o_headers =
        [ navigationAccept,
          (''sec-fetch-dest'', JStr ''document''),
          (''sec-fetch-mode'', JStr ''navigate''),
          (''sec-fetch-site'', JStr ''none''),
          (''sec-fetch-user'', JStr ''?1''),
          (''upgrade-insecure-requests'', JStr ''1'') ]\<rparr>"

definition loginPostOptions :: "client \<Rightarrow> options" where
  "loginPostOptions c =
     \<lparr>o_method = ''POST'', o_path = ''/owner/'',
      o_headers =
        [ navigationAccept,
          (''content-type'', JStr ''application/x-www-form-urlencoded''),
          (''origin'', JStr (''https://'' @ baseUrl c)),
          (''referer'', JStr (''https://'' @ baseUrl c @ ''/owner/'')),
          (''sec-fetch-dest'', JStr ''document''),
          (''sec-fetch-mode'', JStr ''navigate''),
          (''sec-fetch-site'', JStr ''same-origin''),
          (''sec-fetch-user'', JStr ''?1''),
          (''upgrade-insecure-requests'', JStr ''1'') ]\<rparr>"

text \<open>What \<^verbatim>\<open>login\<close> makes of the response to the credential POST: the redirect test, the
  test for a re-displayed login page, and the final \<^verbatim>\<open>throw\<close>.\<close>

definition loginResult :: "'r response \<Rightarrow> error + bool" where
  "loginResult res =
     (if status res = 302 \<and>
         (case location res of
            None \<Rightarrow> False
          | Some l \<Rightarrow> l \<noteq> [] \<and> (includesStr l ''/owner/dashboard'' \<or> includesStr l ''/owner/''))
      then Inr True
      else if status res = 200 \<and>
         (case data res of
            Text t \<Rightarrow> includesStr t ''Invalid'' \<or> includesStr t ''incorrect'' \<or> includesStr t ''login''
          | _ \<Rightarrow> False)
      then Inl InvalidCredentials
      else Inl (LoginStatus (status res)))"

text \<open>\<^verbatim>\<open>html.match\<close> exists on strings only: a login page that decoded to JSON is a
  \<open>TypeError\<close>.\<close>

definition pageToken :: "'r body \<Rightarrow> error + string" where
  "pageToken b = (case b of Text html \<Rightarrow> extractSecurityToken html | _ \<Rightarrow> Inl TypeError)"

definition login ::
  "'r env \<Rightarrow> client \<Rightarrow> request list \<Rightarrow> string \<Rightarrow> string
     \<Rightarrow> (error + bool) \<times> client \<times> request list" where
  "login e c sent username password =
     (case makeRequest e c sent loginPageOptions None of
        (Inl err, c1, sent1) \<Rightarrow> (Inl err, c1, sent1)
      | (Inr page, c1, sent1) \<Rightarrow>
          if status page \<noteq> 200 then (Inl (LoginPageStatus (status page)), c1, sent1)
          else
            (case pageToken (data page) of
               Inl err \<Rightarrow> (Inl err, c1, sent1)
             | Inr securityToken \<Rightarrow>
                 (case makeRequest e c1 sent1 (loginPostOptions c1)
                         (Some (urlencode e
                            [ (''username'', JStr username),
                              (''password'', JStr password),
                              (''security'', JStr securityToken) ])) of
                    (Inl err, c2, sent2) \<Rightarrow> (Inl err, c2, sent2)
                  | (Inr res, c2, sent2) \<Rightarrow> (loginResult res, c2, sent2))))"

section \<open>Pagination Engine\<close>

text \<open>\<^verbatim>\<open>fetchReservations\<close> as \<^verbatim>\<open>fetchAllReservations\<close> calls it: dates, page and page size
  given, the other options at their defaults. The time stamp is the clock's at this
  request.\<close>

definition reservationsOptions ::
  "'r env \<Rightarrow> client \<Rightarrow> int \<Rightarrow> string \<Rightarrow> string \<Rightarrow> int \<Rightarrow> int \<Rightarrow> options" where
  "reservationsOptions e c stamp startDate endDate page pageSize =
     \<lparr>o_method = ''GET'',
      o_path = RESERVATIONS_ENDPOINT @ ''?'' @ urlencode e
         [ (''draw'', JNum page),
           (''search'', JStr []),
           (''startDateRange'', JStr startDate),
           (''endDateRange'', JStr endDate),
           (''unitId'', JStr []),
           (''size'', JNum pageSize),
           (''page'', JNum page),
           (''sortColumn'', JStr ''id''),
           (''sortDirection'', JStr ''asc''),
           (''_'', JNum stamp) ],
      o_headers =
         [ (''referer'', JStr (''https://'' @ baseUrl c @ ''/owner/reservations/'')),
           (''priority'', JStr ''u=1, i'') ]\<rparr>"

definition fetchReservations ::
  "'r env \<Rightarrow> client \<Rightarrow> request list \<Rightarrow> string \<Rightarrow> string \<Rightarrow> int \<Rightarrow> int
     \<Rightarrow> (error + 'r body) \<times> client \<times> request list" where
  "fetchReservations e c sent startDate endDate page pageSize =
     (case makeRequest e c sent
             (reservationsOptions e c (now e (length sent)) startDate endDate page pageSize) None of
        (Inl err, c', sent') \<Rightarrow> (Inl err, c', sent')
      | (Inr res, c', sent') \<Rightarrow>
          if status res \<noteq> 200 then (Inl (ReservationsStatus (status res)), c', sent')
          else (Inr (data res), c', sent'))"

text \<open>The pagination cursor: the three local variables of \<^verbatim>\<open>fetchAllReservations\<close>.\<close>

record 'r cursor =
  currentPage :: int
  totalPages :: int
  allReservations :: "'r list"

text \<open>A JSON number field is truthy when it is there and not zero.\<close>

definition truthyNum :: "int option \<Rightarrow> bool" where
  "truthyNum v = (case v of None \<Rightarrow> False | Some n \<Rightarrow> n \<noteq> 0)"

text \<open>\<^verbatim>\<open>Math.ceil(data.total / data.size)\<close>, on exact numbers: for integers below
  \<open>2\<^sup>5\<^sup>3\<close> the floating-point quotient rounds up to the same integer.\<close>

definition pagesOf :: "int \<Rightarrow> int \<Rightarrow> int" where
  "pagesOf t s = \<lceil>real_of_int t / real_of_int s\<rceil>"

text \<open>The records one response adds: \<^verbatim>\<open>allReservations.push(...reservations)\<close> under
  \<^verbatim>\<open>if (data._embedded && data._embedded.reservations)\<close>.\<close>

definition pushed :: "'r list option \<Rightarrow> 'r list" where
  "pushed emb = (case emb of None \<Rightarrow> [] | Some reservations \<Rightarrow> reservations)"

text \<open>The loop body after the fetch: append the page's records, recompute the page count
  when the response reports both numbers, go to the next page.\<close>

definition absorbPage :: "'r body \<Rightarrow> 'r cursor \<Rightarrow> error + 'r cursor" where
  "absorbPage b cur =
     (case field embedded_reservations None b of
        Inl err \<Rightarrow> Inl err
      | Inr emb \<Rightarrow>
          (case field total_field None b of
             Inl err \<Rightarrow> Inl err
           | Inr t \<Rightarrow>
               (case field size_field None b of
                  Inl err \<Rightarrow> Inl err
                | Inr sz \<Rightarrow>
                    Inr \<lparr>currentPage = currentPage cur + 1,
                         totalPages =
                           (if truthyNum t \<and> truthyNum sz then pagesOf (the t) (the sz)
                            else totalPages cur),
                         allReservations = allReservations cur @ pushed emb\<rparr>)))"

text \<open>The \<^verbatim>\<open>do ... while (currentPage <= totalPages)\<close> loop. Nothing bounds the number of
  pages a server can report, so the loop takes fuel, one unit per iteration; \<open>None\<close> is a
  run that has not ended within the fuel.\<close>

fun fetchLoop ::
  "nat \<Rightarrow> 'r env \<Rightarrow> string \<Rightarrow> string \<Rightarrow> client \<Rightarrow> request list \<Rightarrow> 'r cursor
     \<Rightarrow> (error + 'r list) option \<times> client \<times> request list" where
  "fetchLoop 0 e startDate endDate c sent cur = (None, c, sent)"
| "fetchLoop (Suc fuel) e startDate endDate c sent cur =
     (case fetchReservations e c sent startDate endDate (currentPage cur) PAGE_SIZE of
        (Inl err, c', sent') \<Rightarrow> (Some (Inl err), c', sent')
      | (Inr b, c', sent') \<Rightarrow>
          (case absorbPage b cur of
             Inl err \<Rightarrow> (Some (Inl err), c', sent')
           | Inr cur' \<Rightarrow>
               if currentPage cur' \<le> totalPages cur'
               then fetchLoop fuel e startDate endDate c' sent' cur'
               else (Some (Inr (allReservations cur')), c', sent')))"

definition fetchAllReservations ::
  "nat \<Rightarrow> 'r env \<Rightarrow> client \<Rightarrow> request list \<Rightarrow> string \<Rightarrow> string
     \<Rightarrow> (error + 'r list) option \<times> client \<times> request list" where
  "fetchAllReservations fuel e c sent startDate endDate =
     fetchLoop fuel e startDate endDate c sent
       \<lparr>currentPage = 1, totalPages = 1, allReservations = []\<rparr>"

section \<open>Persisting the result\<close>

text \<open>
  Paths follow POSIX \<^verbatim>\<open>path\<close> (the program runs in a Linux container). A resolved
  directory is an absolute, normalised path and is kept as its list of segments;
  \<open>walk\<close> is one step of the normalisation: empty and \<^verbatim>\<open>.\<close> segments vanish,
  \<^verbatim>\<open>..\<close> drops the last segment (and stays at the root).
\<close>

fun splitOn :: "char \<Rightarrow> string \<Rightarrow> string list" where
  "splitOn sep [] = [[]]"
| "splitOn sep (c # s) =
     (if c = sep then [] # splitOn sep s
      else (case splitOn sep s of [] \<Rightarrow> [[c]] | x # xs \<Rightarrow> (c # x) # xs))"

definition walk :: "string list \<Rightarrow> string \<Rightarrow> string list" where
  "walk dir seg =
     (if seg = [] \<or> seg = ''.'' then dir
      else if seg = ''..'' then butlast dir
      else dir @ [seg])"

text \<open>\<^verbatim>\<open>path.resolve(p)\<close>: from the root when \<open>p\<close> is absolute, from the working directory
  otherwise.\<close>

definition path_resolve :: "string list \<Rightarrow> string \<Rightarrow> string list" where
  "path_resolve wd p =
     foldl walk (if startsWith p ''/'' then [] else wd) (splitOn (CHR ''/'') p)"

text \<open>\<^verbatim>\<open>path.basename(p)\<close>: trailing slashes are dropped, then what follows the last slash is
  kept.\<close>

definition path_basename :: "string \<Rightarrow> string" where
  "path_basename p =
     rev (takeWhile (\<lambda>c. c \<noteq> CHR ''/'') (dropWhile (\<lambda>c. c = CHR ''/'') (rev p)))"

text \<open>\<^verbatim>\<open>path.join(dir, name)\<close> for a resolved \<open>dir\<close>: the normalisation goes on from
  \<open>dir\<close> through the segments of \<open>name\<close>.\<close>

definition path_join :: "string list \<Rightarrow> string \<Rightarrow> string list" where
  "path_join dir name = foldl walk dir (splitOn (CHR ''/'') name)"

text \<open>
  The file system: the directories that exist (the root always does) and the contents of
  the regular files. \<^verbatim>\<open>fs.mkdir(d, {recursive: true})\<close> creates \<open>d\<close> and its missing
  ancestors and fails when \<open>d\<close> or one of them is a regular file; \<^verbatim>\<open>fs.writeFile\<close> fails on a
  directory and in a directory that does not exist, and otherwise creates or replaces the
  file. Links and permissions are not modelled.
\<close>

record fs =
  dirs :: "string list set"
  files :: "string list \<rightharpoonup> string"

definition isDir :: "fs \<Rightarrow> string list \<Rightarrow> bool" where
  "isDir f p = (p = [] \<or> p \<in> dirs f)"

definition mkdirRecursive :: "string list \<Rightarrow> fs \<Rightarrow> (error + unit) \<times> fs" where
  "mkdirRecursive d f =
     (if files f d \<noteq> None then (Inl (FsError ''EEXIST''), f)
      else if \<exists>p \<in> set (prefixes d). files f p \<noteq> None then (Inl (FsError ''ENOTDIR''), f)
      else (Inr (), f\<lparr>dirs := dirs f \<union> set (prefixes d)\<rparr>))"

definition writeFile :: "string list \<Rightarrow> string \<Rightarrow> fs \<Rightarrow> (error + unit) \<times> fs" where
  "writeFile p content f =
     (if isDir f p then (Inl (FsError ''EISDIR''), f)
      else if \<not> isDir f (butlast p) then (Inl (FsError ''ENOENT''), f)
      else (Inr (), f\<lparr>files := (files f)(p \<mapsto> content)\<rparr>))"

text \<open>\<^verbatim>\<open>process.env.OUTPUT_DIR || "output"\<close>, resolved.\<close>

definition outputDir :: "'r env \<Rightarrow> string list" where
  "outputDir e =
     path_resolve (cwd e)
       (case OUTPUT_DIR e of None \<Rightarrow> ''output'' | Some d \<Rightarrow> if d = [] then ''output'' else d)"

definition filepath :: "'r env \<Rightarrow> string \<Rightarrow> string list" where
  "filepath e filename = path_join (outputDir e) (path_basename filename)"

definition saveReservations :: "'r env \<Rightarrow> 'r list \<Rightarrow> string \<Rightarrow> fs \<Rightarrow> (error + unit) \<times> fs" where
  "saveReservations e reservations filename f =
     (case mkdirRecursive (outputDir e) f of
        (Inl err, f') \<Rightarrow> (Inl err, f')
      | (Inr _, f') \<Rightarrow> writeFile (filepath e filename) (stringify e reservations) f')"

section \<open>Fetch Orchestrator\<close>

text \<open>
  The \<^verbatim>\<open>try\<close> block of \<^verbatim>\<open>main\<close>, from the resolved configuration on (a missing value is
  \<open>None\<close>; the dates and the output file always have their defaults). A run ends with
  the retrieved records, with \<^verbatim>\<open>process.exit(1)\<close> for want of credentials, or in the
  \<^verbatim>\<open>catch\<close> with the error thrown. The requests sent and the file system are handed
  on with the result.
\<close>

record config =
  cfg_domain :: "string option"
  sessionCookie :: "string option"
  username :: "string option"
  password :: "string option"
  startDate :: string
  endDate :: string
  outputFile :: string

datatype 'r outcome = Done "'r list" | AuthRequired | Failed error

text \<open>A configuration value as a string; the missing value and the empty string are the
  falsy ones.\<close>

definition given :: "string option \<Rightarrow> string" where
  "given v = (case v of None \<Rightarrow> [] | Some s \<Rightarrow> s)"

text \<open>
  The summary at the end of the \<^verbatim>\<open>try\<close> block, run when there is a record at all:
  \<^verbatim>\<open>
    reservations.reduce((acc, res) => {
      acc.totalNights += res.nights || 0;
      acc.totalRevenue += parseFloat(res.ownerBreakdown?.grossRevenue || 0);
      return acc; }, { totalNights: 0, totalRevenue: 0 })
  \<close>
  The pipeline passes records on unread; here every record is read. A record that is the
  JSON \<open>null\<close> makes \<^verbatim>\<open>res.nights\<close> throw a \<open>TypeError\<close>, which ends the run in the
  \<^verbatim>\<open>catch\<close> after the file has been written; on any other JSON value the two reads
  give a value or \<open>undefined\<close> and nothing is thrown. So the records of \<^verbatim>\<open>main\<close> are
  \<open>'r option\<close>, \<open>None\<close> the \<open>null\<close>. The two totals are floating-point sums that
  are only printed, and are left out.
\<close>

fun summarize :: "'r option list \<Rightarrow> error + unit" where
  "summarize [] = Inr ()"
| "summarize (None # rest) = Inl TypeError"
| "summarize (Some res # rest) = summarize rest"

text \<open>From \<^verbatim>\<open>getApiToken\<close> to the summary.\<close>

definition fetchAndSave ::
  "nat \<Rightarrow> 'r option env \<Rightarrow> config \<Rightarrow> fs \<Rightarrow> client \<Rightarrow> request list
     \<Rightarrow> 'r option outcome option \<times> request list \<times> fs" where
  "fetchAndSave fuel e cfg f c sent =
     (case getApiToken e c sent of
        (Inl err, c1, sent1) \<Rightarrow> (Some (Failed err), sent1, f)
      | (Inr _, c1, sent1) \<Rightarrow>
          (case fetchAllReservations fuel e c1 sent1 (startDate cfg) (endDate cfg) of
             (None, c2, sent2) \<Rightarrow> (None, sent2, f)
           | (Some (Inl err), c2, sent2) \<Rightarrow> (Some (Failed err), sent2, f)
           | (Some (Inr reservations), c2, sent2) \<Rightarrow>
               (case saveReservations e reservations (outputFile cfg) f of
                  (Inl err, f') \<Rightarrow> (Some (Failed err), sent2, f')
                | (Inr _, f') \<Rightarrow>
                    (case summarize reservations of
                       Inl err \<Rightarrow> (Some (Failed err), sent2, f')
                     | Inr _ \<Rightarrow> (Some (Done reservations), sent2, f')))))"

definition main ::
  "nat \<Rightarrow> 'r option env \<Rightarrow> config \<Rightarrow> fs
     \<Rightarrow> 'r option outcome option \<times> request list \<times> fs" where
  "main fuel e cfg f =
     (case newClient (cfg_domain cfg) of
        Inl err \<Rightarrow> (Some (Failed err), [], f)
      | Inr client \<Rightarrow>
          if given (sessionCookie cfg) \<noteq> []
          then fetchAndSave fuel e cfg f (client\<lparr>cookies := [given (sessionCookie cfg)]\<rparr>) []
          else if given (username cfg) \<noteq> [] \<and> given (password cfg) \<noteq> []
          then
            (case login e client [] (given (username cfg)) (given (password cfg)) of
               (Inl err, c1, sent1) \<Rightarrow> (Some (Failed err), sent1, f)
             | (Inr _, c1, sent1) \<Rightarrow> fetchAndSave fuel e cfg f c1 sent1)
          else (Some AuthRequired, [], f))"

section \<open>Example runs\<close>

text \<open>
  A scripted platform for the examples: the network answers the \<open>n\<close>-th request with
  the \<open>n\<close>-th response of a list (and fails after the last), the records are strings,
  the query string is written without escapes, the program runs in \<^verbatim>\<open>/app\<close>.
\<close>

definition plainQuery :: "(string \<times> jsval) list \<Rightarrow> string" where
  "plainQuery ps = join ''&'' (map (\<lambda>(k, v). k @ ''='' @ jsToString v) ps)"

definition scripted :: "string response list \<Rightarrow> string env" where
  "scripted rs =
     \<lparr>net = (\<lambda>h. if h \<noteq> [] \<and> length h \<le> length rs then Inr (rs ! (length h - 1))
                 else Inl NetworkError),
      now = (\<lambda>n. 1767225600000 + int n),
      urlencode = plainQuery,
      stringify = (\<lambda>recs. ''['' @ join '','' recs @ '']''),
      cwd = [''app''],
      OUTPUT_DIR = None\<rparr>"

definition jsonResponse :: "int \<Rightarrow> 'r payload \<Rightarrow> 'r response" where
  "jsonResponse st p = \<lparr>status = st, set_cookie = None, location = None, data = Object p\<rparr>"

definition textResponse :: "int \<Rightarrow> string \<Rightarrow> string response" where
  "textResponse st t = \<lparr>status = st, set_cookie = None, location = None, data = Text t\<rparr>"

definition tokenPayload :: "jsval \<Rightarrow> jsval \<Rightarrow> 'r payload" where
  "tokenPayload ok t =
     \<lparr>success_field = ok, token_field = t, embedded_reservations = None,
      total_field = None, size_field = None\<rparr>"

definition listingPayload :: "'r list option \<Rightarrow> int option \<Rightarrow> int option \<Rightarrow> 'r payload" where
  "listingPayload recs t s =
     \<lparr>success_field = JUndefined, token_field = JUndefined, embedded_reservations = recs,
      total_field = t, size_field = s\<rparr>"

text \<open>The client of the specification's scenario: domain \<^verbatim>\<open>acme\<close>, the supplied session
  cookie in the jar, no token yet.\<close>

definition acme :: client where
  "acme = \<lparr>domain = ''acme'', baseUrl = ''acme.trackhs.com'', token = JNull,
            cookies = [''TrackOwner=xyz'']\<rparr>"

definition acmeConfig :: config where
  "acmeConfig =
     \<lparr>cfg_domain = Some ''acme'', sessionCookie = Some ''TrackOwner=xyz'',
      username = None, password = None,
      startDate = ''2026-01-01'', endDate = ''2026-01-31'',
      outputFile = ''reservations-2026.json''\<rparr>"

definition emptyDisk :: fs where
  "emptyDisk = \<lparr>dirs = {[''app'']}, files = Map.empty\<rparr>"

text \<open>The same client as the constructor leaves it, for a run that logs in.\<close>

definition acmeFresh :: client where
  "acmeFresh = \<lparr>domain = ''acme'', baseUrl = ''acme.trackhs.com'', token = JNull, cookies = []\<rparr>"

definition loginPage :: "string response" where
  "loginPage = textResponse 200 (''<form>'' @ securityInput @ ''</form>'')"

text \<open>The scripted platform for runs of \<^verbatim>\<open>main\<close>: a record is a string or \<open>null\<close>.\<close>

definition scriptedMain :: "string option response list \<Rightarrow> string option env" where
  "scriptedMain rs =
     \<lparr>net = (\<lambda>h. if h \<noteq> [] \<and> length h \<le> length rs then Inr (rs ! (length h - 1))
                 else Inl NetworkError),
      now = (\<lambda>n. 1767225600000 + int n),
      urlencode = plainQuery,
      stringify = (\<lambda>recs. ''['' @ join '',''
                     (map (\<lambda>r. case r of None \<Rightarrow> ''null'' | Some t \<Rightarrow> t) recs) @ '']''),
      cwd = [''app''],
      OUTPUT_DIR = None\<rparr>"

text \<open>A server that answers the \<open>n\<close>-th request with \<open>f n\<close>, without end.\<close>

definition paged :: "(nat \<Rightarrow> string response) \<Rightarrow> string env" where
  "paged f =
     \<lparr>net = (\<lambda>h. Inr (f (length h))),
      now = (\<lambda>n. 1767225600000 + int n),
      urlencode = plainQuery,
      stringify = (\<lambda>recs. ''['' @ join '','' recs @ '']''),
      cwd = [''app''],
      OUTPUT_DIR = None\<rparr>"

section \<open>The cookie jar under \<^verbatim>\<open>Set-Cookie\<close>\<close>

lemma split0_prefix: "startsWith c (split0 x c)"
  by (simp add: startsWith_def split0_def) (metis append_eq_conv_conj takeWhile_dropWhile_id)

lemma cookieName_pair:
  "CHR '';'' \<notin> set (cookieName cookie) \<Longrightarrow>
     cookieName (split0 (CHR '';'') cookie) = cookieName cookie"
  unfolding cookieName_def split0_def by (induction cookie) auto

lemma pair_startsWith_name:
  assumes "CHR '';'' \<notin> set (cookieName cookie)"
  shows "startsWith (split0 (CHR '';'') cookie) (cookieName cookie)"
proof -
  have "startsWith (split0 (CHR '';'') cookie) (cookieName (split0 (CHR '';'') cookie))"
    unfolding cookieName_def by (rule split0_prefix)
  with assms show ?thesis by (simp add: cookieName_pair)
qed

lemma kept_has_other_name:
  "\<not> startsWith c (cookieName c') \<Longrightarrow> cookieName c' = cookieName c \<Longrightarrow> False"
  using split0_prefix [of c "CHR ''=''"] by (auto simp: cookieName_def)

text \<open>What one application does by construction: the pair of the new cookie is the last
  entry, and an entry that does not start with the new cookie's name stays.\<close>

lemma applySetCookie_last: "last (applySetCookie jar cookie) = split0 (CHR '';'') cookie"
  by (simp add: applySetCookie_def)

lemma applySetCookie_keeps:
  "c \<in> set jar \<Longrightarrow> \<not> startsWith c (cookieName cookie) \<Longrightarrow> c \<in> set (applySetCookie jar cookie)"
  by (simp add: applySetCookie_def)

lemma applySetCookie_unique:
  assumes "CHR '';'' \<notin> set (cookieName cookie)" and "uniqueNames jar"
  shows "uniqueNames (applySetCookie jar cookie)"
proof -
  let ?kept = "filter (\<lambda>c. \<not> startsWith c (cookieName cookie)) jar"
  have "distinct (map cookieName ?kept)"
    using assms(2) unfolding uniqueNames_def by (rule distinct_map_filter)
  moreover have "cookieName cookie \<notin> set (map cookieName ?kept)"
    by (auto dest: kept_has_other_name)
  ultimately show ?thesis
    using cookieName_pair [OF assms(1)] by (simp add: uniqueNames_def applySetCookie_def)
qed

text \<open>Over a whole response: values that start with a \<^verbatim>\<open>name=value\<close> pair keep the names of
  the jar unique.\<close>

lemma storeCookies_unique:
  "\<forall>c \<in> set cs. CHR '';'' \<notin> set (cookieName c) \<Longrightarrow> uniqueNames jar \<Longrightarrow>
     uniqueNames (storeCookies jar (Some cs))"
proof (induction cs arbitrary: jar)
  case Nil
  then show ?case by (simp add: storeCookies_def)
next
  case (Cons c cs)
  then have "uniqueNames (applySetCookie jar c)"
    by (simp add: applySetCookie_unique)
  with Cons.IH [of "applySetCookie jar c"] Cons.prems(1) show ?case
    by (simp add: storeCookies_def)
qed

text \<open>
  Claim C1 (the jar keeps one entry per cookie name, the latest value, and a
  \<^verbatim>\<open>Set-Cookie\<close> for one name never removes the entry of another name). The filter of
  \<^verbatim>\<open>makeRequest\<close> drops every entry that \<^emph>\<open>starts with\<close> the new cookie's name, not only
  the entry of that name: after \<^verbatim>\<open>session_id=abc\<close> and then \<^verbatim>\<open>session=xyz\<close> the jar holds
  \<^verbatim>\<open>session=xyz\<close> alone, and the cookie \<^verbatim>\<open>session_id\<close> is lost.
\<close>

theorem storeCookies_drops_longer_name:
  "storeCookies [] (Some [''session_id=abc; Path=/'', ''session=xyz; Path=/'']) = [''session=xyz'']"
  by (simp add: storeCookies_def applySetCookie_def cookieName_def split0_def startsWith_def)

text \<open>
  Claim C8, as the code has it: for a \<^verbatim>\<open>Set-Cookie\<close> value with no \<open>;\<close> before its first
  \<open>=\<close> (a value that starts with a \<^verbatim>\<open>name=value\<close> pair, or has neither character in its
  name), applying the value twice gives the same jar as applying it once, and a jar with
  unique names has unique names afterwards.
\<close>

theorem applySetCookie_idempotent:
  assumes "CHR '';'' \<notin> set (cookieName cookie)"
  shows "applySetCookie (applySetCookie jar cookie) cookie = applySetCookie jar cookie
       \<and> (uniqueNames jar \<longrightarrow> uniqueNames (applySetCookie jar cookie))"
proof
  show "applySetCookie (applySetCookie jar cookie) cookie = applySetCookie jar cookie"
    using pair_startsWith_name [OF assms] by (simp add: applySetCookie_def)
next
  show "uniqueNames jar \<longrightarrow> uniqueNames (applySetCookie jar cookie)"
    using assms by (simp add: applySetCookie_unique)
qed

theorem applySetCookie_idempotent_witness:
  "applySetCookie (applySetCookie [''a=1'', ''sid=old''] ''sid=new; Path=/; HttpOnly'')
       ''sid=new; Path=/; HttpOnly'' = [''a=1'', ''sid=new'']
   \<and> applySetCookie [''a=1'', ''sid=old''] ''sid=new; Path=/; HttpOnly'' = [''a=1'', ''sid=new'']
   \<and> uniqueNames [''a=1'', ''sid=old'']
   \<and> uniqueNames (applySetCookie [''a=1'', ''sid=old''] ''sid=new; Path=/; HttpOnly'')"
proof -
  have h: "CHR '';'' \<notin> set (cookieName ''sid=new; Path=/; HttpOnly'')"
    by (simp add: cookieName_def split0_def)
  have u: "uniqueNames [''a=1'', ''sid=old'']"
    by (simp add: uniqueNames_def cookieName_def split0_def)
  have v: "applySetCookie [''a=1'', ''sid=old''] ''sid=new; Path=/; HttpOnly''
             = [''a=1'', ''sid=new'']"
    by (simp add: applySetCookie_def cookieName_def split0_def startsWith_def)
  from applySetCookie_idempotent [OF h, of "[''a=1'', ''sid=old'']"] u v
  show ?thesis by simp
qed

text \<open>A value whose name part runs over a \<open>;\<close> is appended again at every application:
  the entry pushed is \<^verbatim>\<open>foo\<close>, the name filtered is \<^verbatim>\<open>foo; Secure\<close>.\<close>

theorem applySetCookie_repeats_bare_name:
  "applySetCookie (applySetCookie [] ''foo; Secure'') ''foo; Secure'' = [''foo'', ''foo'']
   \<and> applySetCookie [] ''foo; Secure'' = [''foo'']
   \<and> \<not> uniqueNames (applySetCookie (applySetCookie [] ''foo; Secure'') ''foo; Secure'')"
  by (simp add: applySetCookie_def cookieName_def split0_def startsWith_def uniqueNames_def)

section \<open>The security-token patterns\<close>

lemmas pattern_defs = patterns_def lit_def quote_def notQuote_def notGt_def greedy_def lower_def

lemma matchHere_securityInput:
  "matchHere (patterns ! 0) (securityInput @ post) = Some [''abc123'']"
  by (simp add: securityInput_def pattern_defs)

text \<open>Start positions at which a pattern does not match are passed over.\<close>

lemma search_skip:
  "(\<forall>k<length pre. matchHere p (drop k pre @ rest) = None) \<Longrightarrow>
     search p (pre @ rest) = search p rest"
proof (induction pre)
  case Nil
  then show ?case by simp
next
  case (Cons x pre)
  have here: "matchHere p ((x # pre) @ rest) = None"
    using Cons.prems by (metis drop0 length_greater_0_conv list.distinct(1))
  have "\<forall>k<length pre. matchHere p (drop k pre @ rest) = None"
  proof (intro allI impI)
    fix k assume "k < length pre"
    then have "Suc k < length (x # pre)" by simp
    with Cons.prems have "matchHere p (drop (Suc k) (x # pre) @ rest) = None" by blast
    then show "matchHere p (drop k pre @ rest) = None" by simp
  qed
  with Cons.IH have "search p (pre @ rest) = search p rest" by simp
  with here show ?case by simp
qed

lemma search_here: "matchHere p s = Some caps \<Longrightarrow> search p s = Some caps"
  by (cases s) simp_all

lemma firstToken_first:
  "i < length ps \<Longrightarrow> \<forall>j<i. search (ps ! j) html = None \<Longrightarrow>
   search (ps ! i) html = Some (tok # rest) \<Longrightarrow> tok \<noteq> [] \<Longrightarrow>
   firstToken ps html = Inr tok"
proof (induction ps arbitrary: i)
  case Nil
  then show ?case by simp
next
  case (Cons p ps)
  show ?case
  proof (cases i)
    case 0
    with Cons.prems show ?thesis by simp
  next
    case (Suc n)
    with Cons.prems have "search p html = None" by auto
    moreover have "firstToken ps html = Inr tok"
    proof (rule Cons.IH [of n])
      show "n < length ps" using Cons.prems Suc by simp
      show "\<forall>j<n. search (ps ! j) html = None" using Cons.prems Suc by auto
      show "search (ps ! n) html = Some (tok # rest)" using Cons.prems Suc by simp
      show "tok \<noteq> []" by fact
    qed
    ultimately show ?thesis by simp
  qed
qed

lemma firstToken_none:
  "\<forall>p \<in> set ps. search p html = None \<Longrightarrow> firstToken ps html = Inl SecurityTokenNotFound"
  by (induction ps) simp_all

lemma firstSome_Some: "firstSome f xs = Some y \<Longrightarrow> \<exists>x \<in> set xs. f x = Some y"
  by (induction xs) (auto split: option.splits)

text \<open>A group around a \<^verbatim>\<open>+\<close> never captures the empty string, so the test of
  \<^verbatim>\<open>match[1]\<close> never rejects a match.\<close>

lemma captures_nonempty: "matchHere p s = Some caps \<Longrightarrow> [] \<notin> set caps"
proof (induction p s arbitrary: caps rule: matchHere.induct)
  case (1 s)
  then show ?case by simp
next
  case (2 c r s)
  then show ?case by (auto split: list.splits if_splits)
next
  case (3 c r s)
  from firstSome_Some [OF "3.prems" [unfolded matchHere.simps]]
  show ?case using "3.IH" by auto
next
  case (4 c r s)
  from firstSome_Some [OF "4.prems" [unfolded matchHere.simps]]
  show ?case using "4.IH" by auto
next
  case (5 c r s)
  from firstSome_Some [OF "5.prems" [unfolded matchHere.simps]]
  obtain k caps' where k: "1 \<le> k" "k \<le> greedy c s"
    and m: "matchHere r (drop k s) = Some caps'"
    and caps: "caps = take k s # caps'"
    by auto
  have "greedy c s \<le> length s"
    unfolding greedy_def by (rule length_takeWhile_le)
  with k have "take k s \<noteq> []" by auto
  moreover from "5.IH" m have "[] \<notin> set caps'" by blast
  ultimately show ?case using caps by simp
qed

lemma search_captures_nonempty: "search p s = Some caps \<Longrightarrow> [] \<notin> set caps"
  by (induction s) (auto split: option.splits dest: captures_nonempty)

text \<open>
  Claim C4. (1) On the element
  \<^verbatim>\<open><input type="hidden" name="security" value="abc123">\<close> followed by any text, and on
  a page that holds the element after a text in which the first candidate matches at no
  position, \<^verbatim>\<open>extractSecurityToken\<close> returns \<^verbatim>\<open>abc123\<close>. (2) On a page on which none of the four
  candidates matches it fails with the token-not-found error, an authentication error.
  (3) The first candidate in the list that matches decides the result, whatever the later
  ones would capture.
\<close>

theorem extractSecurityToken_first_match:
  "extractSecurityToken (securityInput @ post) = Inr ''abc123''
   \<and> ((\<forall>k<length pre. matchHere (patterns ! 0) (drop k pre @ securityInput @ post) = None) \<longrightarrow>
      extractSecurityToken (pre @ securityInput @ post) = Inr ''abc123'')
   \<and> ((\<forall>p \<in> set patterns. search p html = None) \<longrightarrow>
        extractSecurityToken html = Inl SecurityTokenNotFound
        \<and> isAuthError SecurityTokenNotFound)
   \<and> (i < length patterns \<and> (\<forall>j<i. search (patterns ! j) html' = None)
        \<and> search (patterns ! i) html' = Some (tok # rest) \<longrightarrow>
        extractSecurityToken html' = Inr tok)"
proof (intro conjI impI)
  have found: "extractSecurityToken (pre' @ securityInput @ post) = Inr ''abc123''"
    if skip: "\<forall>k<length pre'. matchHere (patterns ! 0) (drop k pre' @ securityInput @ post) = None"
    for pre'
  proof -
    have "search (patterns ! 0) (pre' @ securityInput @ post)
            = search (patterns ! 0) (securityInput @ post)"
      using skip by (rule search_skip)
    also have "\<dots> = Some [''abc123'']"
      by (rule search_here) (rule matchHere_securityInput)
    finally have "search (patterns ! 0) (pre' @ securityInput @ post) = Some (''abc123'' # [])" .
    moreover have "0 < length patterns" by (simp add: patterns_def)
    ultimately have "firstToken patterns (pre' @ securityInput @ post) = Inr ''abc123''"
      using firstToken_first [of 0 patterns "pre' @ securityInput @ post" "''abc123''" "[]"]
      by simp
    then show ?thesis by (simp add: extractSecurityToken_def)
  qed
  from found [of "[]"] show "extractSecurityToken (securityInput @ post) = Inr ''abc123''"
    by simp
  assume "\<forall>k<length pre. matchHere (patterns ! 0) (drop k pre @ securityInput @ post) = None"
  then show "extractSecurityToken (pre @ securityInput @ post) = Inr ''abc123''"
    by (rule found)
next
  assume "\<forall>p \<in> set patterns. search p html = None"
  then show "extractSecurityToken html = Inl SecurityTokenNotFound"
    unfolding extractSecurityToken_def by (rule firstToken_none)
next
  show "isAuthError SecurityTokenNotFound" by simp
next
  assume a: "i < length patterns \<and> (\<forall>j<i. search (patterns ! j) html' = None)
        \<and> search (patterns ! i) html' = Some (tok # rest)"
  then have "tok \<noteq> []" using search_captures_nonempty [of "patterns ! i" html' "tok # rest"]
    by auto
  with a show "extractSecurityToken html' = Inr tok"
    unfolding extractSecurityToken_def by (blast intro: firstToken_first)
qed
lemma all_less_list_all: "(\<forall>k<n. P k) = list_all P [0..<n]"
  by (auto simp: list_all_iff)

theorem extractSecurityToken_first_match_witness:
  \<open>extractSecurityToken securityInput = Inr ''abc123''
   \<and> extractSecurityToken (''<p><input name="u">'' @ securityInput @ ''</p>'') = Inr ''abc123''
   \<and> extractSecurityToken ''<form><input name="username"></form>'' = Inl SecurityTokenNotFound
   \<and> search (patterns ! 2) ''<input value="A" name="security" > name="security" x value="B" ''
        = Some [''B'']
   \<and> extractSecurityToken ''<input value="A" name="security" > name="security" x value="B" ''
        = Inr ''A''\<close>
proof -
  let ?pre = \<open>''<p><input name="u">''\<close>
  let ?none = \<open>''<form><input name="username"></form>''\<close>
  let ?two = \<open>''<input value="A" name="security" > name="security" x value="B" ''\<close>
  have h1: "\<forall>k<length ?pre. matchHere (patterns ! 0) (drop k ?pre @ securityInput @ ''</p>'') = None"
    unfolding all_less_list_all by code_simp
  have h2: "\<forall>p \<in> set patterns. search p ?none = None"
    by code_simp
  have h3: "1 < length patterns \<and> (\<forall>j<1. search (patterns ! j) ?two = None)
              \<and> search (patterns ! 1) ?two = Some (''A'' # [])"
    unfolding all_less_list_all by code_simp
  have h4: "search (patterns ! 2) ?two = Some [''B'']"
    by code_simp
  from extractSecurityToken_first_match [of "[]"] have h0: "extractSecurityToken securityInput = Inr ''abc123''"
    by simp
  from extractSecurityToken_first_match [of "''</p>''" ?pre ?none 1 ?two "''A''" "[]"] h0 h1 h2 h3 h4
  show ?thesis by blast
qed

section \<open>The requests a client sends\<close>

lemma makeRequest_token: "makeRequest e c sent opts body = (r, c', sent') \<Longrightarrow> token c' = token c"
  by (auto simp: makeRequest_def Let_def split: sum.splits)

lemma makeRequest_sent:
  "makeRequest e c sent opts body = (r, c', sent') \<Longrightarrow> sent' = sent @ [buildRequest c opts body]"
  by (auto simp: makeRequest_def Let_def split: sum.splits)

text \<open>The authorization header of a request, when the caller's headers do not set one.\<close>

lemma buildRequest_authorization:
  assumes "map_of (o_headers opts) ''authorization'' = None"
  shows "headers (buildRequest c opts body) ''authorization''
           = (if truthy (token c) then Some (JStr (''Bearer '' @ jsToString (token c))) else None)"
proof -
  have d: "map_of defaultHeaders ''authorization'' = None"
    by (simp add: defaultHeaders_def)
  have s: "sessionHeaders c ''authorization''
             = (if truthy (token c) then Some (JStr (''Bearer '' @ jsToString (token c))) else None)"
    using d by (simp add: sessionHeaders_def Let_def)
  have m: "(sessionHeaders c ++ map_of (o_headers opts)) ''authorization''
             = sessionHeaders c ''authorization''"
    using assms by (simp add: map_add_def)
  show ?thesis
    using m s by (cases body) (simp_all add: buildRequest_def Let_def split: option.split)
qed

lemma getApiToken_sent:
  "getApiToken e c sent = (r, c', sent') \<Longrightarrow> sent' = sent @ [buildRequest c (tokenOptions c) None]"
  by (auto simp: getApiToken_def makeRequest_def Let_def split: sum.splits if_splits)

lemma token_request:
  "r_method (buildRequest c (tokenOptions c) None) = ''GET''
   \<and> path (buildRequest c (tokenOptions c) None) \<noteq> ''/owner/''"
  by (simp add: buildRequest_def tokenOptions_def API_TOKEN_ENDPOINT_def)

lemma fetchReservations_sent:
  "fetchReservations e c sent sd ed page ps = (r, c', sent') \<Longrightarrow>
     sent' = sent @ [buildRequest c (reservationsOptions e c (now e (length sent)) sd ed page ps) None]
     \<and> token c' = token c"
  by (auto simp: fetchReservations_def makeRequest_def Let_def split: sum.splits if_splits)

text \<open>A listing request is a \<^verbatim>\<open>GET\<close> to the reservations endpoint and carries the token of
  the client that sends it.\<close>

lemma listing_request:
  assumes "q = buildRequest c (reservationsOptions e c stamp sd ed page ps) None"
  shows "r_method q = ''GET''" and "path q \<noteq> ''/owner/''"
    and "headers q ''authorization''
           = (if truthy (token c) then Some (JStr (''Bearer '' @ jsToString (token c))) else None)"
proof -
  show "r_method q = ''GET''" "path q \<noteq> ''/owner/''"
    using assms by (simp_all add: buildRequest_def reservationsOptions_def RESERVATIONS_ENDPOINT_def)
  have "map_of (o_headers (reservationsOptions e c stamp sd ed page ps)) ''authorization'' = None"
    by (simp add: reservationsOptions_def)
  then show "headers q ''authorization''
           = (if truthy (token c) then Some (JStr (''Bearer '' @ jsToString (token c))) else None)"
    unfolding assms by (rule buildRequest_authorization)
qed

text \<open>The loop sends listing requests only, all with the token the client held when the
  loop began.\<close>

lemma fetchLoop_sent:
  "fetchLoop fuel e sd ed c sent cur = (r, c', sent') \<Longrightarrow>
     \<exists>new. sent' = sent @ new
       \<and> (\<forall>q \<in> set new. r_method q = ''GET'' \<and> path q \<noteq> ''/owner/''
            \<and> headers q ''authorization''
                = (if truthy (token c) then Some (JStr (''Bearer '' @ jsToString (token c)))
                   else None))"
proof (induction fuel arbitrary: c sent cur)
  case 0
  then show ?case by simp
next
  case (Suc fuel)
  let ?auth = "if truthy (token c) then Some (JStr (''Bearer '' @ jsToString (token c))) else None"
  obtain r1 c1 sent1 where f: "fetchReservations e c sent sd ed (currentPage cur) PAGE_SIZE
                                 = (r1, c1, sent1)"
    by (cases "fetchReservations e c sent sd ed (currentPage cur) PAGE_SIZE") auto
  define q where "q = buildRequest c (reservationsOptions e c (now e (length sent)) sd ed
                                        (currentPage cur) PAGE_SIZE) None"
  have s1: "sent1 = sent @ [q]" and t1: "token c1 = token c"
    using fetchReservations_sent [OF f] unfolding q_def by simp_all
  have lq: "r_method q = ''GET'' \<and> path q \<noteq> ''/owner/'' \<and> headers q ''authorization'' = ?auth"
    using listing_request [OF q_def] by simp
  show ?case
  proof (cases r1)
    case (Inl err)
    with Suc.prems f have "sent' = sent1" by simp
    with s1 lq show ?thesis by simp
  next
    case (Inr b)
    show ?thesis
    proof (cases "absorbPage b cur")
      case (Inl err)
      with Suc.prems f Inr have "sent' = sent1" by simp
      with s1 lq show ?thesis by simp
    next
      case cur': (Inr cur')
      show ?thesis
      proof (cases "currentPage cur' \<le> totalPages cur'")
        case True
        with Suc.prems f Inr cur' have "fetchLoop fuel e sd ed c1 sent1 cur' = (r, c', sent')"
          by simp
        from Suc.IH [OF this] t1 obtain new where
          "sent' = sent1 @ new"
          "\<forall>q \<in> set new. r_method q = ''GET'' \<and> path q \<noteq> ''/owner/''
              \<and> headers q ''authorization'' = ?auth"
          by auto
        with s1 lq have "sent' = sent @ (q # new)
                         \<and> (\<forall>q \<in> set (q # new). r_method q = ''GET'' \<and> path q \<noteq> ''/owner/''
                              \<and> headers q ''authorization'' = ?auth)"
          by simp
        then show ?thesis by blast
      next
        case False
        with Suc.prems f Inr cur' have "sent' = sent1" by simp
        with s1 lq show ?thesis by simp
      qed
    qed
  qed
qed

section \<open>Token Acquirer\<close>

text \<open>
  Claim C6, as the code has it. \<^verbatim>\<open>getApiToken\<close> fails with an authentication error if
  and only if the status of the response is not 200, or the body (not being the JSON
  \<open>null\<close>) has a falsy success flag or a falsy token field: missing, \<open>null\<close>, empty,
  zero or \<open>false\<close>; a text body has neither field. With status 200 and the body \<open>null\<close>
  the property read throws, and the failure is a \<open>TypeError\<close>. Otherwise it returns the
  token and stores it in the client, and from then on every request that \<^verbatim>\<open>makeRequest\<close>
  builds for that client (the caller not setting the header itself) carries
  \<^verbatim>\<open>authorization: Bearer <token>\<close>, the token as a template literal prints it (a string
  token as it is), and \<^verbatim>\<open>makeRequest\<close> leaves the stored token as it is; in particular
  every request that \<^verbatim>\<open>fetchAllReservations\<close> sends afterwards carries the header.
  Nothing of the reported expiry is kept.
\<close>

theorem getApiToken_outcome:
  assumes "net e (sent @ [buildRequest c (tokenOptions c) None]) = Inr res"
  shows "((\<exists>err. fst (getApiToken e c sent) = Inl err \<and> isAuthError err)
            \<longleftrightarrow> (status res \<noteq> 200
                 \<or> (\<exists>t. data res = Text t)
                 \<or> (\<exists>p. data res = Object p
                        \<and> (\<not> truthy (success_field p) \<or> \<not> truthy (token_field p)))))
       \<and> (status res = 200 \<and> data res = NullBody \<longrightarrow> fst (getApiToken e c sent) = Inl TypeError)
       \<and> (status res = 200 \<and> data res = Object p \<and> truthy (success_field p)
            \<and> truthy (token_field p) \<longrightarrow>
            (\<exists>c' sent'. getApiToken e c sent = (Inr (token_field p), c', sent')
               \<and> token c' = token_field p
               \<and> (\<forall>log opts body.
                     map_of (o_headers opts) ''authorization'' = None \<longrightarrow>
                     headers (last (snd (snd (makeRequest e c' log opts body)))) ''authorization''
                       = Some (JStr (''Bearer '' @ jsToString (token_field p)))
                     \<and> token (fst (snd (makeRequest e c' log opts body))) = token_field p)
               \<and> (\<forall>fuel sd ed.
                     \<forall>q \<in> set (drop (length sent')
                                  (snd (snd (fetchAllReservations fuel e c' sent' sd ed)))).
                       headers q ''authorization''
                         = Some (JStr (''Bearer '' @ jsToString (token_field p))))))
       \<and> jsToString (JStr t) = t"
proof -
  let ?c1 = "c\<lparr>cookies := storeCookies (cookies c) (set_cookie res)\<rparr>"
  let ?s1 = "sent @ [buildRequest c (tokenOptions c) None]"
  have mk: "makeRequest e c sent (tokenOptions c) None = (Inr res, ?c1, ?s1)"
    using assms by (simp add: makeRequest_def Let_def)
  have bad: "fst (getApiToken e c sent) = Inl (TokenStatus (status res))" if "status res \<noteq> 200"
    using that by (simp add: getApiToken_def mk)
  have plain: "fst (getApiToken e c sent) = Inl TokenMissing"
    if "status res = 200" "data res = Text t'" for t'
    using that by (simp add: getApiToken_def mk)
  have null: "fst (getApiToken e c sent) = Inl TypeError"
    if "status res = 200" "data res = NullBody"
    using that by (simp add: getApiToken_def mk)
  have obj: "getApiToken e c sent =
               (if \<not> truthy (success_field p') \<or> \<not> truthy (token_field p')
                then (Inl TokenMissing, ?c1, ?s1)
                else (Inr (token_field p'), ?c1\<lparr>token := token_field p'\<rparr>, ?s1))"
    if "status res = 200" "data res = Object p'" for p'
    using that by (simp add: getApiToken_def mk)
  have iff: "(\<exists>err. fst (getApiToken e c sent) = Inl err \<and> isAuthError err)
            \<longleftrightarrow> (status res \<noteq> 200
                 \<or> (\<exists>t. data res = Text t)
                 \<or> (\<exists>p. data res = Object p
                        \<and> (\<not> truthy (success_field p) \<or> \<not> truthy (token_field p))))"
  proof (cases "status res = 200")
    case False
    then show ?thesis by (simp add: bad)
  next
    case True
    show ?thesis
    proof (cases "data res")
      case (Text t')
      with True show ?thesis by (simp add: plain)
    next
      case (Object p')
      with True show ?thesis by (simp add: obj)
    next
      case NullBody
      with True show ?thesis by (simp add: null)
    qed
  qed
  have ok: "status res = 200 \<and> data res = Object p \<and> truthy (success_field p)
            \<and> truthy (token_field p) \<longrightarrow>
            (\<exists>c' sent'. getApiToken e c sent = (Inr (token_field p), c', sent')
               \<and> token c' = token_field p
               \<and> (\<forall>log opts body.
                     map_of (o_headers opts) ''authorization'' = None \<longrightarrow>
                     headers (last (snd (snd (makeRequest e c' log opts body)))) ''authorization''
                       = Some (JStr (''Bearer '' @ jsToString (token_field p)))
                     \<and> token (fst (snd (makeRequest e c' log opts body))) = token_field p)
               \<and> (\<forall>fuel sd ed.
                     \<forall>q \<in> set (drop (length sent')
                                  (snd (snd (fetchAllReservations fuel e c' sent' sd ed)))).
                       headers q ''authorization''
                         = Some (JStr (''Bearer '' @ jsToString (token_field p)))))"
  proof
    assume a: "status res = 200 \<and> data res = Object p \<and> truthy (success_field p)
                 \<and> truthy (token_field p)"
    let ?tok = "token_field p"
    let ?c' = "?c1\<lparr>token := ?tok\<rparr>"
    have g: "getApiToken e c sent = (Inr ?tok, ?c', ?s1)"
      using a by (simp add: obj)
    have tk: "token ?c' = ?tok" by simp
    have later: "\<forall>log opts body.
                     map_of (o_headers opts) ''authorization'' = None \<longrightarrow>
                     headers (last (snd (snd (makeRequest e ?c' log opts body)))) ''authorization''
                       = Some (JStr (''Bearer '' @ jsToString ?tok))
                     \<and> token (fst (snd (makeRequest e ?c' log opts body))) = ?tok"
    proof (intro allI impI)
      fix log and opts :: options and body
      assume h: "map_of (o_headers opts) ''authorization'' = None"
      obtain r' c2 log2 where m: "makeRequest e ?c' log opts body = (r', c2, log2)"
        by (cases "makeRequest e ?c' log opts body") auto
      have "log2 = log @ [buildRequest ?c' opts body]" using m by (rule makeRequest_sent)
      moreover have "token c2 = token ?c'" using m by (rule makeRequest_token)
      moreover have "headers (buildRequest ?c' opts body) ''authorization''
                       = Some (JStr (''Bearer '' @ jsToString ?tok))"
        using buildRequest_authorization [OF h, of ?c' body] a by simp
      ultimately show "headers (last (snd (snd (makeRequest e ?c' log opts body)))) ''authorization''
                       = Some (JStr (''Bearer '' @ jsToString ?tok))
                     \<and> token (fst (snd (makeRequest e ?c' log opts body))) = ?tok"
        by (simp add: m)
    qed
    have pipeline: "\<forall>fuel sd ed.
                     \<forall>q \<in> set (drop (length ?s1)
                                  (snd (snd (fetchAllReservations fuel e ?c' ?s1 sd ed)))).
                       headers q ''authorization'' = Some (JStr (''Bearer '' @ jsToString ?tok))"
    proof (intro allI)
      fix fuel sd ed
      obtain r' c2 log2 where f: "fetchAllReservations fuel e ?c' ?s1 sd ed = (r', c2, log2)"
        by (cases "fetchAllReservations fuel e ?c' ?s1 sd ed") auto
      then obtain new where "log2 = ?s1 @ new"
        "\<forall>q \<in> set new. r_method q = ''GET'' \<and> path q \<noteq> ''/owner/''
            \<and> headers q ''authorization''
                = (if truthy (token ?c') then Some (JStr (''Bearer '' @ jsToString (token ?c')))
                   else None)"
        unfolding fetchAllReservations_def by (blast dest: fetchLoop_sent)
      with a show "\<forall>q \<in> set (drop (length ?s1) (snd (snd (fetchAllReservations fuel e ?c' ?s1 sd ed)))).
                       headers q ''authorization'' = Some (JStr (''Bearer '' @ jsToString ?tok))"
        by (simp add: f)
    qed
    from g tk later pipeline show "\<exists>c' sent'. getApiToken e c sent = (Inr (token_field p), c', sent')
               \<and> token c' = token_field p
               \<and> (\<forall>log opts body.
                     map_of (o_headers opts) ''authorization'' = None \<longrightarrow>
                     headers (last (snd (snd (makeRequest e c' log opts body)))) ''authorization''
                       = Some (JStr (''Bearer '' @ jsToString (token_field p)))
                     \<and> token (fst (snd (makeRequest e c' log opts body))) = token_field p)
               \<and> (\<forall>fuel sd ed.
                     \<forall>q \<in> set (drop (length sent')
                                  (snd (snd (fetchAllReservations fuel e c' sent' sd ed)))).
                       headers q ''authorization''
                         = Some (JStr (''Bearer '' @ jsToString (token_field p))))"
      by blast
  qed
  have str: "jsToString (JStr t) = t" by simp
  from iff null ok str show ?thesis by blast
qed

theorem getApiToken_outcome_witness:
  "\<not> (\<exists>err. fst (getApiToken (scripted [jsonResponse 200 (tokenPayload (JBool True) (JStr ''tok123''))])
                     acme []) = Inl err \<and> isAuthError err)
   \<and> (\<exists>c' sent'.
         getApiToken (scripted [jsonResponse 200 (tokenPayload (JBool True) (JStr ''tok123''))]) acme []
           = (Inr (JStr ''tok123''), c', sent')
         \<and> token c' = JStr ''tok123''
         \<and> headers (last (snd (snd (makeRequest
               (scripted [jsonResponse 200 (tokenPayload (JBool True) (JStr ''tok123''))]) c' sent'
               (reservationsOptions
                  (scripted [jsonResponse 200 (tokenPayload (JBool True) (JStr ''tok123''))])
                  c' 0 ''2026-01-01'' ''2026-01-31'' 1 PAGE_SIZE) None)))) ''authorization''
             = Some (JStr ''Bearer tok123''))
   \<and> (\<exists>err. fst (getApiToken (scripted [textResponse 200 ''<html>Sign in</html>'']) acme [])
               = Inl err \<and> isAuthError err)"
proof -
  let ?p = "tokenPayload (JBool True) (JStr ''tok123'') :: string payload"
  let ?res = "jsonResponse 200 ?p"
  let ?e = "scripted [?res]"
  let ?page = "textResponse 200 ''<html>Sign in</html>''"
  have n: "net ?e ([] @ [buildRequest acme (tokenOptions acme) None]) = Inr ?res"
    by (simp add: scripted_def)
  have n2: "net (scripted [?page]) ([] @ [buildRequest acme (tokenOptions acme) None]) = Inr ?page"
    by (simp add: scripted_def)
  have s: "status ?res = 200 \<and> data ?res = Object ?p \<and> truthy (success_field ?p)
             \<and> truthy (token_field ?p)"
    by (simp add: jsonResponse_def tokenPayload_def)
  have tf: "token_field ?p = JStr ''tok123''" "success_field ?p = JBool True"
    by (simp_all add: tokenPayload_def)
  have d: "data ?res = Object ?p" "status ?res = 200"
    by (simp_all add: jsonResponse_def)
  have o: "\<And>c'. map_of (o_headers (reservationsOptions ?e c' 0 ''2026-01-01'' ''2026-01-31'' 1 PAGE_SIZE))
             ''authorization'' = None"
    by (simp add: reservationsOptions_def)
  have first: "\<not> (\<exists>err. fst (getApiToken ?e acme []) = Inl err \<and> isAuthError err)"
    using getApiToken_outcome [OF n, of ?p] by (simp add: d tf)
  have second: "\<exists>c' sent'. getApiToken ?e acme [] = (Inr (JStr ''tok123''), c', sent')
         \<and> token c' = JStr ''tok123''
         \<and> headers (last (snd (snd (makeRequest ?e c' sent'
               (reservationsOptions ?e c' 0 ''2026-01-01'' ''2026-01-31'' 1 PAGE_SIZE) None))))
             ''authorization'' = Some (JStr ''Bearer tok123'')"
    using getApiToken_outcome [OF n, of ?p] s o unfolding tf by (simp del: truthy.simps) blast
  have third: "\<exists>err. fst (getApiToken (scripted [?page]) acme []) = Inl err \<and> isAuthError err"
    using getApiToken_outcome [OF n2, of undefined] by (simp add: textResponse_def)
  from first second third show ?thesis by blast
qed

text \<open>A token endpoint that answers 200 with a true success flag and the token \<^verbatim>\<open>""\<close>: the
  field is there, and \<^verbatim>\<open>getApiToken\<close> fails all the same. And one that answers 200 with
  the body \<^verbatim>\<open>null\<close>: the failure is not an authentication error.\<close>

theorem getApiToken_empty_token_and_null_body:
  "fst (getApiToken (scripted [jsonResponse 200 (tokenPayload (JBool True) (JStr []))]) acme [])
     = Inl TokenMissing
   \<and> isAuthError TokenMissing
   \<and> status (jsonResponse 200 (tokenPayload (JBool True) (JStr []) :: string payload)) = 200
   \<and> truthy (success_field (tokenPayload (JBool True) (JStr []) :: string payload))
   \<and> token_field (tokenPayload (JBool True) (JStr []) :: string payload) \<noteq> JUndefined
   \<and> fst (getApiToken
            (scripted [\<lparr>status = 200, set_cookie = None, location = None, data = NullBody\<rparr>])
            acme []) = Inl TypeError
   \<and> \<not> isAuthError TypeError"
  by (simp add: getApiToken_def makeRequest_def scripted_def jsonResponse_def tokenPayload_def)

section \<open>Session Establisher\<close>

lemma startsWith_append: "startsWith s t \<longleftrightarrow> (\<exists>post. s = t @ post)"
  unfolding startsWith_def by (metis append_eq_conv_conj append_take_drop_id)

text \<open>\<open>includesStr\<close> is the contiguous-substring relation.\<close>

lemma includesStr_iff: "includesStr s t \<longleftrightarrow> (\<exists>pre post. s = pre @ t @ post)"
proof (induction s)
  case Nil
  then show ?case by (auto simp: startsWith_def)
next
  case (Cons c s)
  show ?case
  proof
    assume "includesStr (c # s) t"
    then consider "startsWith (c # s) t" | "includesStr s t" by auto
    then show "\<exists>pre post. c # s = pre @ t @ post"
    proof cases
      case 1
      then obtain post where "c # s = t @ post" by (auto simp: startsWith_append)
      then have "c # s = [] @ t @ post" by simp
      then show ?thesis by blast
    next
      case 2
      with Cons.IH obtain pre post where "s = pre @ t @ post" by blast
      then have "c # s = (c # pre) @ t @ post" by simp
      then show ?thesis by blast
    qed
  next
    assume "\<exists>pre post. c # s = pre @ t @ post"
    then obtain pre post where e: "c # s = pre @ t @ post" by blast
    show "includesStr (c # s) t"
    proof (cases pre)
      case Nil
      with e have "startsWith (c # s) t" by (auto simp: startsWith_append)
      then show ?thesis by simp
    next
      case (Cons x pre')
      with e have "s = pre' @ t @ post" by simp
      with Cons.IH have "includesStr s t" by blast
      then show ?thesis by simp
    qed
  qed
qed

lemma includesStr_shorter: "includesStr s (t @ u) \<Longrightarrow> includesStr s t"
proof -
  assume "includesStr s (t @ u)"
  then obtain pre post where "s = pre @ (t @ u) @ post" by (auto simp: includesStr_iff)
  then have "s = pre @ t @ (u @ post)" by simp
  then show ?thesis unfolding includesStr_iff by blast
qed

lemma includesStr_dashboard: "includesStr l ''/owner/dashboard'' \<Longrightarrow> includesStr l ''/owner/''"
  using includesStr_shorter [of l "''/owner/''" "''dashboard''"] by simp

lemma includesStr_nonempty: "includesStr l t \<Longrightarrow> t \<noteq> [] \<Longrightarrow> l \<noteq> []"
  by (cases l) auto

lemma loginResult_cases:
  "loginResult res =
     (if status res = 302 \<and> (\<exists>l. location res = Some l \<and> includesStr l ''/owner/'') then Inr True
      else if status res = 200 \<and>
              (\<exists>t. data res = Text t \<and>
                 (includesStr t ''Invalid'' \<or> includesStr t ''incorrect'' \<or> includesStr t ''login''))
      then Inl InvalidCredentials
      else Inl (LoginStatus (status res)))"
proof -
  have loc: "(case location res of None \<Rightarrow> False
              | Some l \<Rightarrow> l \<noteq> [] \<and> (includesStr l ''/owner/dashboard'' \<or> includesStr l ''/owner/''))
            \<longleftrightarrow> (\<exists>l. location res = Some l \<and> includesStr l ''/owner/'')"
    by (cases "location res") (auto dest: includesStr_dashboard includesStr_nonempty)
  have bdy: "(case data res of
                Text t \<Rightarrow> includesStr t ''Invalid'' \<or> includesStr t ''incorrect'' \<or> includesStr t ''login''
              | _ \<Rightarrow> False)
            \<longleftrightarrow> (\<exists>t. data res = Text t \<and>
                 (includesStr t ''Invalid'' \<or> includesStr t ''incorrect'' \<or> includesStr t ''login''))"
    by (cases "data res") auto
  show ?thesis unfolding loginResult_def loc bdy ..
qed

text \<open>
  Claim C3, as the code has it. Once the login page has been fetched (status 200) and its
  security token extracted, the response to the credential POST decides: status 302 with
  a \<^verbatim>\<open>Location\<close> that contains \<^verbatim>\<open>/owner/\<close> (as \<^verbatim>\<open>/owner/dashboard/\<close> does) makes
  \<^verbatim>\<open>login\<close> return \<open>true\<close>; status 200 with a text body that contains \<^verbatim>\<open>Invalid\<close>,
  \<^verbatim>\<open>incorrect\<close> or \<^verbatim>\<open>login\<close> makes it fail with the invalid-credentials error; every
  other response makes it fail with the error that names the status.
\<close>

theorem login_outcome:
  assumes "q1 = buildRequest c loginPageOptions None"
      and "net e (sent @ [q1]) = Inr page"
      and "status page = 200"
      and "data page = Text html"
      and "extractSecurityToken html = Inr tok"
      and "c1 = c\<lparr>cookies := storeCookies (cookies c) (set_cookie page)\<rparr>"
      and "q2 = buildRequest c1 (loginPostOptions c1)
                  (Some (urlencode e [(''username'', JStr user), (''password'', JStr pass),
                                      (''security'', JStr tok)]))"
      and "net e (sent @ [q1, q2]) = Inr res"
  shows "fst (login e c sent user pass) =
           (if status res = 302 \<and> (\<exists>l. location res = Some l \<and> includesStr l ''/owner/'')
            then Inr True
            else if status res = 200 \<and>
                    (\<exists>t. data res = Text t \<and>
                       (includesStr t ''Invalid'' \<or> includesStr t ''incorrect''
                          \<or> includesStr t ''login''))
            then Inl InvalidCredentials
            else Inl (LoginStatus (status res)))
       \<and> isAuthError InvalidCredentials \<and> isAuthError (LoginStatus (status res))
       \<and> (includesStr ''/owner/dashboard/'' ''/owner/'')"
proof -
  have m1: "makeRequest e c sent loginPageOptions None = (Inr page, c1, sent @ [q1])"
    using assms(1,2,6) by (simp add: makeRequest_def Let_def)
  have m2: "makeRequest e c1 (sent @ [q1]) (loginPostOptions c1)
              (Some (urlencode e [(''username'', JStr user), (''password'', JStr pass),
                                  (''security'', JStr tok)]))
            = (Inr res, c1\<lparr>cookies := storeCookies (cookies c1) (set_cookie res)\<rparr>, sent @ [q1, q2])"
    using assms(7,8) by (simp add: makeRequest_def Let_def)
  have "fst (login e c sent user pass) = loginResult res"
    using assms(3,4,5) by (simp add: login_def m1 m2 pageToken_def)
  moreover have "includesStr ''/owner/dashboard/'' ''/owner/''"
    by (simp add: startsWith_def)
  ultimately show ?thesis by (simp add: loginResult_cases)
qed

theorem login_outcome_witness:
  "fst (login (scripted [loginPage,
                 \<lparr>status = 302, set_cookie = Some [''TrackOwner=s1; path=/''],
                  location = Some ''/owner/dashboard/'', data = Text []\<rparr>])
          acmeFresh [] ''owner@example.com'' ''secret'') = Inr True"
proof -
  let ?res = "\<lparr>status = 302, set_cookie = Some [''TrackOwner=s1; path=/''],
               location = Some ''/owner/dashboard/'', data = Text ([] :: string)\<rparr> :: string response"
  let ?e = "scripted [loginPage, ?res]"
  have t: "extractSecurityToken (''<form>'' @ securityInput @ ''</form>'') = Inr ''abc123''"
    by code_simp
  have l: "includesStr ''/owner/dashboard/'' ''/owner/''"
    by (simp add: startsWith_def)
  from login_outcome [OF refl _ _ _ t refl refl, of ?e "[]" acmeFresh loginPage
      "''owner@example.com''" "''secret''" ?res] l
  show ?thesis by (simp add: scripted_def loginPage_def textResponse_def)
qed

text \<open>A re-displayed login page that says \<^verbatim>\<open>Please login again\<close>: status 200, no
  \<^verbatim>\<open>Invalid\<close> in the body, and the error is the invalid-credentials one, not the one that
  names the status.\<close>

theorem login_reports_credentials_on_login_text:
  "fst (login (scripted [loginPage, textResponse 200 ''Please login again''])
          acmeFresh [] ''owner@example.com'' ''secret'') = Inl InvalidCredentials
   \<and> \<not> includesStr ''Please login again'' ''Invalid''
   \<and> InvalidCredentials \<noteq> LoginStatus 200"
proof -
  have t: "pageToken (data loginPage) = (Inr ''abc123'' :: error + string)"
    unfolding loginPage_def textResponse_def pageToken_def by code_simp
  have r: "loginResult (textResponse 200 ''Please login again'') = Inl InvalidCredentials"
    by (simp add: loginResult_def textResponse_def startsWith_def)
  have n: "\<not> includesStr ''Please login again'' ''Invalid''"
    by (simp add: startsWith_def)
  have "fst (login (scripted [loginPage, textResponse 200 ''Please login again''])
          acmeFresh [] ''owner@example.com'' ''secret'') = Inl InvalidCredentials"
    unfolding login_def makeRequest_def
    by (simp add: scripted_def Let_def t r) (simp add: loginPage_def textResponse_def)
  with n show ?thesis by simp
qed

section \<open>Pagination Engine\<close>

lemma reservations_path:
  "o_path (reservationsOptions e c stamp sd ed page pageSize)
     = o_path (reservationsOptions e c' stamp sd ed page pageSize)"
  by (simp add: reservationsOptions_def)

text \<open>One iteration of the loop on a page that arrives with status 200 and a JSON object.\<close>

lemma fetchLoop_step:
  assumes "q = buildRequest c (reservationsOptions e c (now e (length sent)) sd ed
                                 (currentPage cur) PAGE_SIZE) None"
      and "net e (sent @ [q]) = Inr res"
      and "status res = 200"
      and "data res = Object p"
      and "c' = c\<lparr>cookies := storeCookies (cookies c) (set_cookie res)\<rparr>"
      and "cur' = \<lparr>currentPage = currentPage cur + 1,
                   totalPages = (if truthyNum (total_field p) \<and> truthyNum (size_field p)
                                 then pagesOf (the (total_field p)) (the (size_field p))
                                 else totalPages cur),
                   allReservations = allReservations cur @ pushed (embedded_reservations p)\<rparr>"
  shows "fetchLoop (Suc fuel) e sd ed c sent cur =
           (if currentPage cur' \<le> totalPages cur'
            then fetchLoop fuel e sd ed c' (sent @ [q]) cur'
            else (Some (Inr (allReservations cur')), c', sent @ [q]))"
proof -
  have f: "fetchReservations e c sent sd ed (currentPage cur) PAGE_SIZE
             = (Inr (Object p), c', sent @ [q])"
    using assms(1-5) by (simp add: fetchReservations_def makeRequest_def Let_def)
  have a: "absorbPage (Object p) cur = Inr cur'"
    using assms(6) by (simp add: absorbPage_def)
  show ?thesis by (simp add: f a)
qed

text \<open>A first page that does not report both numbers ends the loop: one request.\<close>

lemma fetchAll_single_page:
  assumes "q = buildRequest c (reservationsOptions e c (now e (length sent)) sd ed 1 PAGE_SIZE) None"
      and "net e (sent @ [q]) = Inr res"
      and "status res = 200"
      and "data res = Object p"
      and "\<not> (truthyNum (total_field p) \<and> truthyNum (size_field p))"
  shows "fetchAllReservations (Suc fuel) e c sent sd ed
           = (Some (Inr (pushed (embedded_reservations p))),
              c\<lparr>cookies := storeCookies (cookies c) (set_cookie res)\<rparr>, sent @ [q])"
proof -
  let ?cur = "\<lparr>currentPage = 1, totalPages = 1, allReservations = []\<rparr> :: 'a cursor"
  let ?cur' = "\<lparr>currentPage = 2, totalPages = 1,
                allReservations = pushed (embedded_reservations p)\<rparr> :: 'a cursor"
  have "fetchLoop (Suc fuel) e sd ed c sent ?cur =
           (if currentPage ?cur' \<le> totalPages ?cur'
            then fetchLoop fuel e sd ed (c\<lparr>cookies := storeCookies (cookies c) (set_cookie res)\<rparr>)
                   (sent @ [q]) ?cur'
            else (Some (Inr (allReservations ?cur')),
                  c\<lparr>cookies := storeCookies (cookies c) (set_cookie res)\<rparr>, sent @ [q]))"
    using assms by (intro fetchLoop_step [where res = res and p = p]) auto
  then show ?thesis by (simp add: fetchAllReservations_def)
qed

lemma pagesOf_250_100: "pagesOf 250 100 = 3"
  by (simp add: pagesOf_def)

text \<open>
  Claim C2. If every response of the listing endpoint has status 200 and a JSON object
  that reports \<open>total = 250\<close> and \<open>size = 100\<close>, then the page count is computed
  as 3, \<^verbatim>\<open>fetchAllReservations\<close> sends exactly three requests, for the pages 1, 2 and 3 in
  this order (each a \<^verbatim>\<open>GET\<close> of the reservations endpoint whose query carries the page
  number as \<^verbatim>\<open>draw\<close> and \<^verbatim>\<open>page\<close>, with \<^verbatim>\<open>size\<close> 100), and returns (given fuel for
  three iterations) the records of the three responses, concatenated in page order, each
  page's records in the order of its array.
\<close>

theorem fetchAllReservations_three_pages:
  assumes "\<And>h. \<exists>res p. net e h = Inr res \<and> status res = 200 \<and> data res = Object p
                 \<and> total_field p = Some 250 \<and> size_field p = Some 100"
  shows "pagesOf 250 100 = 3
       \<and> (\<exists>q1 q2 q3 r1 r2 r3 p1 p2 p3 c'.
            net e (sent @ [q1]) = Inr r1 \<and> data r1 = Object p1
          \<and> net e (sent @ [q1, q2]) = Inr r2 \<and> data r2 = Object p2
          \<and> net e (sent @ [q1, q2, q3]) = Inr r3 \<and> data r3 = Object p3
          \<and> map (\<lambda>q. (r_method q, path q)) [q1, q2, q3]
              = map (\<lambda>(page, n).
                       (''GET'',
                        ''/api/v2/pms/reservations/?'' @ urlencode e
                          [ (''draw'', JNum page), (''search'', JStr []),
                            (''startDateRange'', JStr sd), (''endDateRange'', JStr ed),
                            (''unitId'', JStr []), (''size'', JNum 100), (''page'', JNum page),
                            (''sortColumn'', JStr ''id''), (''sortDirection'', JStr ''asc''),
                            (''_'', JNum (now e (length sent + n))) ]))
                  [(1, 0), (2, 1), (3, 2)]
          \<and> (\<forall>fuel. 3 \<le> fuel \<longrightarrow>
                fetchAllReservations fuel e c sent sd ed
                  = (Some (Inr (pushed (embedded_reservations p1) @ pushed (embedded_reservations p2)
                                @ pushed (embedded_reservations p3))),
                     c', sent @ [q1, q2, q3])))"
proof -
  let ?cur0 = "\<lparr>currentPage = 1, totalPages = 1, allReservations = []\<rparr> :: 'a cursor"
  define q1 where "q1 = buildRequest c (reservationsOptions e c (now e (length sent)) sd ed 1 PAGE_SIZE) None"
  obtain r1 p1 where r1: "net e (sent @ [q1]) = Inr r1" "status r1 = 200" "data r1 = Object p1"
    "total_field p1 = Some 250" "size_field p1 = Some 100"
    using assms [of "sent @ [q1]"] by blast
  define c1 where "c1 = c\<lparr>cookies := storeCookies (cookies c) (set_cookie r1)\<rparr>"
  define cur1 where "cur1 = \<lparr>currentPage = 2, totalPages = 3,
                              allReservations = pushed (embedded_reservations p1)\<rparr>"
  define q2 where "q2 = buildRequest c1 (reservationsOptions e c1 (now e (length (sent @ [q1]))) sd ed 2 PAGE_SIZE) None"
  obtain r2 p2 where r2: "net e ((sent @ [q1]) @ [q2]) = Inr r2" "status r2 = 200" "data r2 = Object p2"
    "total_field p2 = Some 250" "size_field p2 = Some 100"
    using assms [of "(sent @ [q1]) @ [q2]"] by blast
  define c2 where "c2 = c1\<lparr>cookies := storeCookies (cookies c1) (set_cookie r2)\<rparr>"
  define cur2 where "cur2 = \<lparr>currentPage = 3, totalPages = 3,
                              allReservations = pushed (embedded_reservations p1)
                                                @ pushed (embedded_reservations p2)\<rparr>"
  define q3 where "q3 = buildRequest c2 (reservationsOptions e c2 (now e (length (sent @ [q1, q2]))) sd ed 3 PAGE_SIZE) None"
  obtain r3 p3 where r3: "net e ((sent @ [q1, q2]) @ [q3]) = Inr r3" "status r3 = 200" "data r3 = Object p3"
    "total_field p3 = Some 250" "size_field p3 = Some 100"
    using assms [of "(sent @ [q1, q2]) @ [q3]"] by blast
  define c3 where "c3 = c2\<lparr>cookies := storeCookies (cookies c2) (set_cookie r3)\<rparr>"
  define cur3 where "cur3 = \<lparr>currentPage = 4, totalPages = 3,
                              allReservations = (pushed (embedded_reservations p1)
                                                @ pushed (embedded_reservations p2))
                                                @ pushed (embedded_reservations p3)\<rparr>"
  have s1: "fetchLoop (Suc fuel) e sd ed c sent ?cur0 = fetchLoop fuel e sd ed c1 (sent @ [q1]) cur1"
    for fuel
    using fetchLoop_step [of q1 c e sent sd ed ?cur0 r1 p1 c1 cur1 fuel] r1
    by (simp add: q1_def c1_def cur1_def truthyNum_def pagesOf_250_100)
  have s2: "fetchLoop (Suc fuel) e sd ed c1 (sent @ [q1]) cur1
              = fetchLoop fuel e sd ed c2 (sent @ [q1, q2]) cur2" for fuel
    using fetchLoop_step [of q2 c1 e "sent @ [q1]" sd ed cur1 r2 p2 c2 cur2 fuel] r2
    by (simp add: q2_def c2_def cur1_def cur2_def truthyNum_def pagesOf_250_100)
  have s3: "fetchLoop (Suc fuel) e sd ed c2 (sent @ [q1, q2]) cur2
              = (Some (Inr (allReservations cur3)), c3, sent @ [q1, q2, q3])" for fuel
    using fetchLoop_step [of q3 c2 e "sent @ [q1, q2]" sd ed cur2 r3 p3 c3 cur3 fuel] r3
    by (simp add: q3_def c3_def cur2_def cur3_def truthyNum_def pagesOf_250_100)
  have run: "fetchAllReservations fuel e c sent sd ed
               = (Some (Inr (pushed (embedded_reservations p1) @ pushed (embedded_reservations p2)
                             @ pushed (embedded_reservations p3))),
                  c3, sent @ [q1, q2, q3])" if "3 \<le> fuel" for fuel
  proof -
    from that obtain n where "fuel = Suc (Suc (Suc n))"
      by (metis add_Suc_right le_Suc_ex numeral_3_eq_3 plus_nat.simps(2))
    then show ?thesis
      by (simp add: fetchAllReservations_def s1 s2 s3 cur3_def del: fetchLoop.simps)
  qed
  have paths: "map (\<lambda>q. (r_method q, path q)) [q1, q2, q3]
              = map (\<lambda>(page, n).
                       (''GET'',
                        ''/api/v2/pms/reservations/?'' @ urlencode e
                          [ (''draw'', JNum page), (''search'', JStr []),
                            (''startDateRange'', JStr sd), (''endDateRange'', JStr ed),
                            (''unitId'', JStr []), (''size'', JNum 100), (''page'', JNum page),
                            (''sortColumn'', JStr ''id''), (''sortDirection'', JStr ''asc''),
                            (''_'', JNum (now e (length sent + n))) ]))
                  [(1, 0), (2, 1), (3, 2)]"
    by (simp add: q1_def q2_def q3_def buildRequest_def reservationsOptions_def
        RESERVATIONS_ENDPOINT_def PAGE_SIZE_def)
  from r1 r2 r3 paths run show ?thesis
    by (simp add: pagesOf_250_100) blast
qed
theorem fetchAllReservations_three_pages_witness:
  "fst (fetchAllReservations 3
          (paged (\<lambda>n. jsonResponse 200
                    (listingPayload (Some [replicate n (CHR ''x''), ''r'']) (Some 250) (Some 100))))
          acme [] ''2026-01-01'' ''2026-01-31'')
     = Some (Inr [''x'', ''r'', ''xx'', ''r'', ''xxx'', ''r''])
   \<and> map path (snd (snd (fetchAllReservations 3
          (paged (\<lambda>n. jsonResponse 200
                    (listingPayload (Some [replicate n (CHR ''x''), ''r'']) (Some 250) (Some 100))))
          acme [] ''2026-01-01'' ''2026-01-31'')))
       = [''/api/v2/pms/reservations/?draw=1&search=&startDateRange=2026-01-01&endDateRange=2026-01-31&unitId=&size=100&page=1&sortColumn=id&sortDirection=asc&_=1767225600000'',
          ''/api/v2/pms/reservations/?draw=2&search=&startDateRange=2026-01-01&endDateRange=2026-01-31&unitId=&size=100&page=2&sortColumn=id&sortDirection=asc&_=1767225600001'',
          ''/api/v2/pms/reservations/?draw=3&search=&startDateRange=2026-01-01&endDateRange=2026-01-31&unitId=&size=100&page=3&sortColumn=id&sortDirection=asc&_=1767225600002'']"
proof -
  let ?e = "paged (\<lambda>n. jsonResponse 200
                    (listingPayload (Some [replicate n (CHR ''x''), ''r'']) (Some 250) (Some 100)))"
  let ?paths = "map (\<lambda>(page, n).
                       (''GET'',
                        ''/api/v2/pms/reservations/?'' @ urlencode ?e
                          [ (''draw'', JNum page), (''search'', JStr []),
                            (''startDateRange'', JStr ''2026-01-01''), (''endDateRange'', JStr ''2026-01-31''),
                            (''unitId'', JStr []), (''size'', JNum 100), (''page'', JNum page),
                            (''sortColumn'', JStr ''id''), (''sortDirection'', JStr ''asc''),
                            (''_'', JNum (now ?e (length ([] :: request list) + n))) ]))
                  [(1, 0), (2, 1), (3, 2)]"
  have h: "\<exists>res p. net ?e h = Inr res \<and> status res = 200 \<and> data res = Object p
                 \<and> total_field p = Some 250 \<and> size_field p = Some 100" for h
    by (simp add: paged_def jsonResponse_def listingPayload_def)
  from fetchAllReservations_three_pages [where e = ?e and sent = "[]" and c = acme
      and sd = "''2026-01-01''" and ed = "''2026-01-31''", OF h]
  have "\<exists>q1 q2 q3 r1 r2 r3 p1 p2 p3 c'.
            net ?e ([] @ [q1]) = Inr r1 \<and> data r1 = Object p1
          \<and> net ?e ([] @ [q1, q2]) = Inr r2 \<and> data r2 = Object p2
          \<and> net ?e ([] @ [q1, q2, q3]) = Inr r3 \<and> data r3 = Object p3
          \<and> map (\<lambda>q. (r_method q, path q)) [q1, q2, q3] = ?paths
          \<and> (\<forall>fuel. 3 \<le> fuel \<longrightarrow>
                fetchAllReservations fuel ?e acme [] ''2026-01-01'' ''2026-01-31''
                  = (Some (Inr (pushed (embedded_reservations p1) @ pushed (embedded_reservations p2)
                                @ pushed (embedded_reservations p3))),
                     c', [] @ [q1, q2, q3]))"
    by (rule conjunct2)
  then obtain q1 q2 q3 r1 r2 r3 p1 p2 p3 c' where
    n: "net ?e ([] @ [q1]) = Inr r1" "data r1 = Object p1"
       "net ?e ([] @ [q1, q2]) = Inr r2" "data r2 = Object p2"
       "net ?e ([] @ [q1, q2, q3]) = Inr r3" "data r3 = Object p3"
    and paths: "map (\<lambda>q. (r_method q, path q)) [q1, q2, q3] = ?paths"
    and run: "\<forall>fuel. 3 \<le> fuel \<longrightarrow>
                fetchAllReservations fuel ?e acme [] ''2026-01-01'' ''2026-01-31''
                  = (Some (Inr (pushed (embedded_reservations p1) @ pushed (embedded_reservations p2)
                                @ pushed (embedded_reservations p3))),
                     c', [] @ [q1, q2, q3])"
    by blast
  from n have recs: "pushed (embedded_reservations p1) = [''x'', ''r'']"
    "pushed (embedded_reservations p2) = [''xx'', ''r'']"
    "pushed (embedded_reservations p3) = [''xxx'', ''r'']"
    by (auto simp: paged_def jsonResponse_def listingPayload_def pushed_def)
  have lits: "?paths =
       [(''GET'', ''/api/v2/pms/reservations/?draw=1&search=&startDateRange=2026-01-01&endDateRange=2026-01-31&unitId=&size=100&page=1&sortColumn=id&sortDirection=asc&_=1767225600000''),
        (''GET'', ''/api/v2/pms/reservations/?draw=2&search=&startDateRange=2026-01-01&endDateRange=2026-01-31&unitId=&size=100&page=2&sortColumn=id&sortDirection=asc&_=1767225600001''),
        (''GET'', ''/api/v2/pms/reservations/?draw=3&search=&startDateRange=2026-01-01&endDateRange=2026-01-31&unitId=&size=100&page=3&sortColumn=id&sortDirection=asc&_=1767225600002'')]"
    by (simp add: paged_def plainQuery_def)
  from paths have "map path [q1, q2, q3] = map snd ?paths"
    by (metis (no_types, lifting) list.map_comp map_eq_conv comp_apply snd_conv)
  then have p3: "map path [q1, q2, q3] =
       [''/api/v2/pms/reservations/?draw=1&search=&startDateRange=2026-01-01&endDateRange=2026-01-31&unitId=&size=100&page=1&sortColumn=id&sortDirection=asc&_=1767225600000'',
        ''/api/v2/pms/reservations/?draw=2&search=&startDateRange=2026-01-01&endDateRange=2026-01-31&unitId=&size=100&page=2&sortColumn=id&sortDirection=asc&_=1767225600001'',
        ''/api/v2/pms/reservations/?draw=3&search=&startDateRange=2026-01-01&endDateRange=2026-01-31&unitId=&size=100&page=3&sortColumn=id&sortDirection=asc&_=1767225600002'']"
    unfolding lits by simp
  from run have "fetchAllReservations 3 ?e acme [] ''2026-01-01'' ''2026-01-31''
                  = (Some (Inr (pushed (embedded_reservations p1) @ pushed (embedded_reservations p2)
                                @ pushed (embedded_reservations p3))),
                     c', [] @ [q1, q2, q3])"
    by simp
  then show ?thesis
    unfolding recs by (simp only: fst_conv snd_conv append_Nil p3) simp
qed



text \<open>
  Claim C9. The page count is recomputed only when the response reports a \<open>total\<close>
  and a \<open>size\<close> that are both there and both not zero; otherwise it stays as it was. A
  response whose \<open>total\<close> or \<open>size\<close> is 0 leaves the cursor exactly as the same response
  without the two fields does, the page count unchanged, and when it is the first
  response the loop ends after this one request.
\<close>

theorem zero_total_keeps_totalPages:
  assumes "total_field p = Some 0 \<or> size_field p = Some 0"
  shows "absorbPage (Object p) cur
           = absorbPage (Object (p\<lparr>total_field := None, size_field := None\<rparr>)) cur
       \<and> (\<exists>cur'. absorbPage (Object p) cur = Inr cur' \<and> totalPages cur' = totalPages cur)
       \<and> (\<exists>cur2. absorbPage (Object p2) cur = Inr cur2
             \<and> totalPages cur2
                 = (if \<exists>t s. total_field p2 = Some t \<and> t \<noteq> 0 \<and> size_field p2 = Some s \<and> s \<noteq> 0
                    then pagesOf (the (total_field p2)) (the (size_field p2))
                    else totalPages cur))
       \<and> (q = buildRequest c (reservationsOptions e c (now e (length sent)) sd ed 1 PAGE_SIZE) None
            \<and> net e (sent @ [q]) = Inr res \<and> status res = 200 \<and> data res = Object p \<longrightarrow>
          (\<forall>fuel. 0 < fuel \<longrightarrow>
            (\<exists>c'. fetchAllReservations fuel e c sent sd ed
                    = (Some (Inr (pushed (embedded_reservations p))), c', sent @ [q]))))"
proof (intro conjI)
  have t: "\<not> (truthyNum (total_field p) \<and> truthyNum (size_field p))"
    using assms by (auto simp: truthyNum_def)
  then have t': "(truthyNum (total_field p) \<and> truthyNum (size_field p)) = False"
    by simp
  have tn: "truthyNum None = False"
    by (simp add: truthyNum_def)
  show "absorbPage (Object p) cur
           = absorbPage (Object (p\<lparr>total_field := None, size_field := None\<rparr>)) cur"
    by (simp add: absorbPage_def t' tn)
  show "\<exists>cur'. absorbPage (Object p) cur = Inr cur' \<and> totalPages cur' = totalPages cur"
    by (simp add: absorbPage_def t')
  have "(truthyNum (total_field p2) \<and> truthyNum (size_field p2))
          = (\<exists>t s. total_field p2 = Some t \<and> t \<noteq> 0 \<and> size_field p2 = Some s \<and> s \<noteq> 0)"
    by (auto simp: truthyNum_def split: option.splits)
  then show "\<exists>cur2. absorbPage (Object p2) cur = Inr cur2
             \<and> totalPages cur2
                 = (if \<exists>t s. total_field p2 = Some t \<and> t \<noteq> 0 \<and> size_field p2 = Some s \<and> s \<noteq> 0
                    then pagesOf (the (total_field p2)) (the (size_field p2))
                    else totalPages cur)"
    by (simp add: absorbPage_def)
  show "q = buildRequest c (reservationsOptions e c (now e (length sent)) sd ed 1 PAGE_SIZE) None
            \<and> net e (sent @ [q]) = Inr res \<and> status res = 200 \<and> data res = Object p \<longrightarrow>
          (\<forall>fuel. 0 < fuel \<longrightarrow>
            (\<exists>c'. fetchAllReservations fuel e c sent sd ed
                    = (Some (Inr (pushed (embedded_reservations p))), c', sent @ [q])))"
  proof (intro allI impI)
    fix fuel :: nat
    assume a: "q = buildRequest c (reservationsOptions e c (now e (length sent)) sd ed 1 PAGE_SIZE) None
            \<and> net e (sent @ [q]) = Inr res \<and> status res = 200 \<and> data res = Object p"
    assume "0 < fuel"
    then obtain n where "fuel = Suc n" by (cases fuel) auto
    then show "\<exists>c'. fetchAllReservations fuel e c sent sd ed
                    = (Some (Inr (pushed (embedded_reservations p))), c', sent @ [q])"
      using fetchAll_single_page [of q c e sent sd ed res p n] a t by blast
  qed
qed

theorem zero_total_keeps_totalPages_witness:
  "absorbPage (Object (listingPayload (Some [''r1'']) (Some 0) (Some 100)))
      \<lparr>currentPage = 2, totalPages = 5, allReservations = [''r0'']\<rparr>
     = Inr \<lparr>currentPage = 3, totalPages = 5, allReservations = [''r0'', ''r1'']\<rparr>
   \<and> absorbPage (Object (listingPayload (Some [''r1'']) None None))
      \<lparr>currentPage = 2, totalPages = 5, allReservations = [''r0'']\<rparr>
     = Inr \<lparr>currentPage = 3, totalPages = 5, allReservations = [''r0'', ''r1'']\<rparr>
   \<and> fst (fetchAllReservations 4
          (paged (\<lambda>n. jsonResponse 200 (listingPayload (Some [''r1'']) (Some 0) (Some 100))))
          acme [] ''2026-01-01'' ''2026-01-31'') = Some (Inr [''r1''])
   \<and> length (snd (snd (fetchAllReservations 4
          (paged (\<lambda>n. jsonResponse 200 (listingPayload (Some [''r1'']) (Some 0) (Some 100))))
          acme [] ''2026-01-01'' ''2026-01-31''))) = 1"
proof -
  let ?p = "listingPayload (Some [''r1'']) (Some 0) (Some 100)"
  let ?e = "paged (\<lambda>n. jsonResponse 200 ?p)"
  let ?cur = "\<lparr>currentPage = 2, totalPages = 5, allReservations = [''r0'']\<rparr>"
  let ?q = "buildRequest acme (reservationsOptions ?e acme (now ?e (length ([] :: request list)))
                                  ''2026-01-01'' ''2026-01-31'' 1 PAGE_SIZE) None"
  have z: "total_field ?p = Some 0 \<or> size_field ?p = Some 0"
    by (simp add: listingPayload_def)
  have n: "?q = ?q \<and> net ?e ([] @ [?q]) = Inr (jsonResponse 200 ?p)
             \<and> status (jsonResponse 200 ?p) = 200 \<and> data (jsonResponse 200 ?p) = Object ?p"
    by (simp add: paged_def jsonResponse_def)
  have a: "absorbPage (Object (listingPayload (Some [''r1'']) None None)) ?cur
             = Inr \<lparr>currentPage = 3, totalPages = 5, allReservations = [''r0'', ''r1'']\<rparr>"
    by (simp add: absorbPage_def listingPayload_def truthyNum_def pushed_def)
  have u: "?p\<lparr>total_field := None, size_field := None\<rparr> = listingPayload (Some [''r1'']) None None"
    by (simp add: listingPayload_def)
  have f: "0 < (4::nat)" by simp
  from zero_total_keeps_totalPages [OF z, of ?cur ?p ?q acme ?e "[]" "''2026-01-01''"
      "''2026-01-31''" "jsonResponse 200 ?p"] n f
  obtain c' where "absorbPage (Object ?p) ?cur
           = absorbPage (Object (?p\<lparr>total_field := None, size_field := None\<rparr>)) ?cur"
    and "fetchAllReservations 4 ?e acme [] ''2026-01-01'' ''2026-01-31''
                    = (Some (Inr (pushed (embedded_reservations ?p))), c', [] @ [?q])"
    by blast
  then show ?thesis
    by (simp add: a u) (simp add: listingPayload_def pushed_def)
qed

section \<open>Fetch Orchestrator\<close>

lemma fetchAndSave_sent:
  assumes "fetchAndSave fuel e cfg f c sent = (r, sent', f')"
  shows "\<exists>new. sent' = sent @ buildRequest c (tokenOptions c) None # new
              \<and> (\<forall>q \<in> set new. r_method q = ''GET'' \<and> path q \<noteq> ''/owner/'')"
proof -
  obtain r1 c1 sent1 where g: "getApiToken e c sent = (r1, c1, sent1)"
    by (cases "getApiToken e c sent") auto
  then have s1: "sent1 = sent @ [buildRequest c (tokenOptions c) None]"
    by (rule getApiToken_sent)
  show ?thesis
  proof (cases r1)
    case (Inl err)
    with assms g have "sent' = sent1" by (simp add: fetchAndSave_def)
    with s1 show ?thesis by simp
  next
    case (Inr t)
    obtain r2 c2 sent2 where l: "fetchAllReservations fuel e c1 sent1 (startDate cfg) (endDate cfg)
                                   = (r2, c2, sent2)"
      by (cases "fetchAllReservations fuel e c1 sent1 (startDate cfg) (endDate cfg)") auto
    then obtain new where n: "sent2 = sent1 @ new"
      "\<forall>q \<in> set new. r_method q = ''GET'' \<and> path q \<noteq> ''/owner/''"
      unfolding fetchAllReservations_def by (fastforce dest: fetchLoop_sent)
    have "sent' = sent2"
      using assms g Inr l
      by (auto simp: fetchAndSave_def split: option.splits sum.splits prod.splits)
    with s1 n show ?thesis by simp
  qed
qed

lemma pagesOf_2_100: "pagesOf 2 100 = 1"
  by (simp add: pagesOf_def ceiling_eq_iff)

text \<open>
  Claim C7. When the configuration has a domain and a session cookie, \<^verbatim>\<open>main\<close> does not
  call \<^verbatim>\<open>login\<close>: whatever the servers answer and however long the run lasts, every
  request it sends is a \<^verbatim>\<open>GET\<close> to a path other than the login path \<^verbatim>\<open>/owner/\<close>; the
  first request is the token request of a client whose jar holds exactly the supplied
  cookie, and carries it as its \<^verbatim>\<open>cookie\<close> header. If the token endpoint then grants a
  token and the listing endpoint answers the first page with \<open>total = 2\<close>,
  \<open>size = 100\<close> and two embedded records, the run sends these two requests and no
  more (the second the \<^verbatim>\<open>GET\<close> for page 1), \<^verbatim>\<open>fetchAllReservations\<close> returns exactly
  the two records, in the server's order, and \<^verbatim>\<open>main\<close> hands them to
  \<^verbatim>\<open>saveReservations\<close>; the run then ends with these records, unless saving fails or
  one of the two is \<open>null\<close>, on which the summary throws.
\<close>

theorem main_with_session_cookie:
  assumes "cfg_domain cfg = Some d" and "d \<noteq> []"
      and "sessionCookie cfg = Some ck" and "ck \<noteq> []"
      and "c0 = \<lparr>domain = d, baseUrl = d @ ''.trackhs.com'', token = JNull, cookies = [ck]\<rparr>"
      and "q1 = buildRequest c0 (tokenOptions c0) None"
  shows "(\<forall>q \<in> set (fst (snd (main fuel e cfg f))). r_method q = ''GET'' \<and> path q \<noteq> ''/owner/'')
       \<and> (\<exists>new. fst (snd (main fuel e cfg f)) = q1 # new)
       \<and> headers q1 ''cookie'' = Some (JStr ck)
       \<and> (net e [q1] = Inr tr \<and> status tr = 200 \<and> data tr = Object tp
            \<and> truthy (success_field tp) \<and> truthy (token_field tp)
            \<and> c1 = c0\<lparr>cookies := storeCookies [ck] (set_cookie tr), token := token_field tp\<rparr>
            \<and> q2 = buildRequest c1 (reservationsOptions e c1 (now e 1) (startDate cfg) (endDate cfg)
                                      1 PAGE_SIZE) None
            \<and> net e [q1, q2] = Inr lr \<and> status lr = 200 \<and> data lr = Object lp
            \<and> total_field lp = Some 2 \<and> size_field lp = Some 100
            \<and> embedded_reservations lp = Some [r1, r2]
            \<and> 0 < fuel \<longrightarrow>
          fst (fetchAllReservations fuel e c1 [q1] (startDate cfg) (endDate cfg))
            = Some (Inr [r1, r2])
          \<and> r_method q2 = ''GET''
          \<and> path q2 = ''/api/v2/pms/reservations/?'' @ urlencode e
                 [ (''draw'', JNum 1), (''search'', JStr []),
                   (''startDateRange'', JStr (startDate cfg)),
                   (''endDateRange'', JStr (endDate cfg)),
                   (''unitId'', JStr []), (''size'', JNum 100), (''page'', JNum 1),
                   (''sortColumn'', JStr ''id''), (''sortDirection'', JStr ''asc''),
                   (''_'', JNum (now e 1)) ]
          \<and> main fuel e cfg f =
            (case saveReservations e [r1, r2] (outputFile cfg) f of
               (Inl err, f') \<Rightarrow> (Some (Failed err), [q1, q2], f')
             | (Inr u, f') \<Rightarrow>
                 (if r1 = None \<or> r2 = None then Some (Failed TypeError)
                  else Some (Done [r1, r2]), [q1, q2], f')))"
proof (intro conjI)
  have m: "main fuel e cfg f = fetchAndSave fuel e cfg f c0 []"
    using assms(1-5) by (simp add: main_def newClient_def given_def)
  obtain r log f' where fs: "fetchAndSave fuel e cfg f c0 [] = (r, log, f')"
    by (cases "fetchAndSave fuel e cfg f c0 []") auto
  from fetchAndSave_sent [OF fs] obtain new where
    n: "log = q1 # new" "\<forall>q \<in> set new. r_method q = ''GET'' \<and> path q \<noteq> ''/owner/''"
    using assms(6) by auto
  show "\<forall>q \<in> set (fst (snd (main fuel e cfg f))). r_method q = ''GET'' \<and> path q \<noteq> ''/owner/''"
    using n token_request [of c0] assms(6) by (simp add: m fs)
  show "\<exists>new. fst (snd (main fuel e cfg f)) = q1 # new"
    using n by (simp add: m fs)
  have "map_of defaultHeaders ''cookie'' = None"
    by (simp add: defaultHeaders_def)
  then show "headers q1 ''cookie'' = Some (JStr ck)"
    using assms(4,5,6)
    by (simp add: buildRequest_def sessionHeaders_def tokenOptions_def Let_def map_add_def)
  show "net e [q1] = Inr tr \<and> status tr = 200 \<and> data tr = Object tp
            \<and> truthy (success_field tp) \<and> truthy (token_field tp)
            \<and> c1 = c0\<lparr>cookies := storeCookies [ck] (set_cookie tr), token := token_field tp\<rparr>
            \<and> q2 = buildRequest c1 (reservationsOptions e c1 (now e 1) (startDate cfg) (endDate cfg)
                                      1 PAGE_SIZE) None
            \<and> net e [q1, q2] = Inr lr \<and> status lr = 200 \<and> data lr = Object lp
            \<and> total_field lp = Some 2 \<and> size_field lp = Some 100
            \<and> embedded_reservations lp = Some [r1, r2]
            \<and> 0 < fuel \<longrightarrow>
          fst (fetchAllReservations fuel e c1 [q1] (startDate cfg) (endDate cfg))
            = Some (Inr [r1, r2])
          \<and> r_method q2 = ''GET''
          \<and> path q2 = ''/api/v2/pms/reservations/?'' @ urlencode e
                 [ (''draw'', JNum 1), (''search'', JStr []),
                   (''startDateRange'', JStr (startDate cfg)),
                   (''endDateRange'', JStr (endDate cfg)),
                   (''unitId'', JStr []), (''size'', JNum 100), (''page'', JNum 1),
                   (''sortColumn'', JStr ''id''), (''sortDirection'', JStr ''asc''),
                   (''_'', JNum (now e 1)) ]
          \<and> main fuel e cfg f =
            (case saveReservations e [r1, r2] (outputFile cfg) f of
               (Inl err, f') \<Rightarrow> (Some (Failed err), [q1, q2], f')
             | (Inr u, f') \<Rightarrow>
                 (if r1 = None \<or> r2 = None then Some (Failed TypeError)
                  else Some (Done [r1, r2]), [q1, q2], f'))"
  proof
    assume a: "net e [q1] = Inr tr \<and> status tr = 200 \<and> data tr = Object tp
            \<and> truthy (success_field tp) \<and> truthy (token_field tp)
            \<and> c1 = c0\<lparr>cookies := storeCookies [ck] (set_cookie tr), token := token_field tp\<rparr>
            \<and> q2 = buildRequest c1 (reservationsOptions e c1 (now e 1) (startDate cfg) (endDate cfg)
                                      1 PAGE_SIZE) None
            \<and> net e [q1, q2] = Inr lr \<and> status lr = 200 \<and> data lr = Object lp
            \<and> total_field lp = Some 2 \<and> size_field lp = Some 100
            \<and> embedded_reservations lp = Some [r1, r2]
            \<and> 0 < fuel"
    then obtain n where fuel: "fuel = Suc n" by (cases fuel) auto
    from a have tr: "net e [q1] = Inr tr" "status tr = 200" "data tr = Object tp"
      "truthy (success_field tp)" "truthy (token_field tp)" by blast+
    from a have c1: "c1 = c0\<lparr>cookies := storeCookies [ck] (set_cookie tr), token := token_field tp\<rparr>"
      by blast
    from a have q2: "q2 = buildRequest c1 (reservationsOptions e c1 (now e 1) (startDate cfg)
                                             (endDate cfg) 1 PAGE_SIZE) None"
      by blast
    from a have lr: "net e [q1, q2] = Inr lr" "status lr = 200" "data lr = Object lp"
      "total_field lp = Some 2" "size_field lp = Some 100"
      "embedded_reservations lp = Some [r1, r2]" by blast+
    have ck: "cookies c0 = [ck]" using assms(5) by simp
    have mt: "makeRequest e c0 [] (tokenOptions c0) None
                = (Inr tr, c0\<lparr>cookies := storeCookies [ck] (set_cookie tr)\<rparr>, [q1])"
      using tr(1) assms(6) ck by (simp add: makeRequest_def Let_def)
    have g: "getApiToken e c0 [] = (Inr (token_field tp), c1, [q1])"
      using tr(2-5) by (simp add: getApiToken_def mt c1)
    let ?cur0 = "\<lparr>currentPage = 1, totalPages = 1, allReservations = []\<rparr> :: 'a option cursor"
    let ?cur1 = "\<lparr>currentPage = 2, totalPages = 1, allReservations = [r1, r2]\<rparr>"
    let ?c2 = "c1\<lparr>cookies := storeCookies (cookies c1) (set_cookie lr)\<rparr>"
    have "fetchLoop (Suc n) e (startDate cfg) (endDate cfg) c1 [q1] ?cur0
            = (if currentPage ?cur1 \<le> totalPages ?cur1
               then fetchLoop n e (startDate cfg) (endDate cfg) ?c2 ([q1] @ [q2]) ?cur1
               else (Some (Inr (allReservations ?cur1)), ?c2, [q1] @ [q2]))"
    proof (rule fetchLoop_step [where res = lr and p = lp])
      show "q2 = buildRequest c1 (reservationsOptions e c1 (now e (length [q1])) (startDate cfg)
                   (endDate cfg) (currentPage ?cur0) PAGE_SIZE) None"
        using q2 by simp
      show "net e ([q1] @ [q2]) = Inr lr" using lr(1) by simp
      show "status lr = 200" by fact
      show "data lr = Object lp" by fact
      show "?c2 = c1\<lparr>cookies := storeCookies (cookies c1) (set_cookie lr)\<rparr>" by simp
      show "?cur1 = \<lparr>currentPage = currentPage ?cur0 + 1,
                   totalPages = (if truthyNum (total_field lp) \<and> truthyNum (size_field lp)
                                 then pagesOf (the (total_field lp)) (the (size_field lp))
                                 else totalPages ?cur0),
                   allReservations = allReservations ?cur0 @ pushed (embedded_reservations lp)\<rparr>"
        using lr(4-6) by (simp add: truthyNum_def pagesOf_2_100 pushed_def)
    qed
    then have l: "fetchAllReservations fuel e c1 [q1] (startDate cfg) (endDate cfg)
                    = (Some (Inr [r1, r2]), ?c2, [q1, q2])"
      by (simp add: fetchAllReservations_def fuel)
    have sm: "summarize [r1, r2] = (if r1 = None \<or> r2 = None then Inl TypeError else Inr ())"
      by (cases r1; cases r2) simp_all
    have pq: "r_method q2 = ''GET''
          \<and> path q2 = ''/api/v2/pms/reservations/?'' @ urlencode e
                 [ (''draw'', JNum 1), (''search'', JStr []),
                   (''startDateRange'', JStr (startDate cfg)),
                   (''endDateRange'', JStr (endDate cfg)),
                   (''unitId'', JStr []), (''size'', JNum 100), (''page'', JNum 1),
                   (''sortColumn'', JStr ''id''), (''sortDirection'', JStr ''asc''),
                   (''_'', JNum (now e 1)) ]"
      unfolding q2
      by (simp add: buildRequest_def reservationsOptions_def RESERVATIONS_ENDPOINT_def
          PAGE_SIZE_def)
    have mn: "main fuel e cfg f =
            (case saveReservations e [r1, r2] (outputFile cfg) f of
               (Inl err, f') \<Rightarrow> (Some (Failed err), [q1, q2], f')
             | (Inr u, f') \<Rightarrow>
                 (if r1 = None \<or> r2 = None then Some (Failed TypeError)
                  else Some (Done [r1, r2]), [q1, q2], f'))"
    proof -
      obtain rs fs' where sv: "saveReservations e [r1, r2] (outputFile cfg) f = (rs, fs')"
        by (cases "saveReservations e [r1, r2] (outputFile cfg) f") auto
      show ?thesis
        by (cases rs) (simp_all add: m fetchAndSave_def g l sv sm)
    qed
    from l pq mn show "fst (fetchAllReservations fuel e c1 [q1] (startDate cfg) (endDate cfg))
            = Some (Inr [r1, r2])
          \<and> r_method q2 = ''GET''
          \<and> path q2 = ''/api/v2/pms/reservations/?'' @ urlencode e
                 [ (''draw'', JNum 1), (''search'', JStr []),
                   (''startDateRange'', JStr (startDate cfg)),
                   (''endDateRange'', JStr (endDate cfg)),
                   (''unitId'', JStr []), (''size'', JNum 100), (''page'', JNum 1),
                   (''sortColumn'', JStr ''id''), (''sortDirection'', JStr ''asc''),
                   (''_'', JNum (now e 1)) ]
          \<and> main fuel e cfg f =
            (case saveReservations e [r1, r2] (outputFile cfg) f of
               (Inl err, f') \<Rightarrow> (Some (Failed err), [q1, q2], f')
             | (Inr u, f') \<Rightarrow>
                 (if r1 = None \<or> r2 = None then Some (Failed TypeError)
                  else Some (Done [r1, r2]), [q1, q2], f'))"
      by simp
  qed
qed
theorem main_with_session_cookie_witness:
  "fst (main 3
          (scriptedMain [jsonResponse 200 (tokenPayload (JBool True) (JStr ''tok'')),
                     jsonResponse 200 (listingPayload (Some [Some ''r1'', Some ''r2'']) (Some 2) (Some 100))])
          acmeConfig emptyDisk) = Some (Done [Some ''r1'', Some ''r2''])
   \<and> map path (fst (snd (main 3
          (scriptedMain [jsonResponse 200 (tokenPayload (JBool True) (JStr ''tok'')),
                     jsonResponse 200 (listingPayload (Some [Some ''r1'', Some ''r2'']) (Some 2) (Some 100))])
          acmeConfig emptyDisk)))
       = [''/owner/api-token/'',
          ''/api/v2/pms/reservations/?draw=1&search=&startDateRange=2026-01-01&endDateRange=2026-01-31&unitId=&size=100&page=1&sortColumn=id&sortDirection=asc&_=1767225600001'']
   \<and> files (snd (snd (main 3
          (scriptedMain [jsonResponse 200 (tokenPayload (JBool True) (JStr ''tok'')),
                     jsonResponse 200 (listingPayload (Some [Some ''r1'', Some ''r2'']) (Some 2) (Some 100))])
          acmeConfig emptyDisk)))
       [''app'', ''output'', ''reservations-2026.json''] = Some ''[r1,r2]''
   \<and> fst (main 3
          (scriptedMain [jsonResponse 200 (tokenPayload (JBool True) (JStr ''tok'')),
                     jsonResponse 200 (listingPayload (Some [Some ''r1'', None]) (Some 2) (Some 100))])
          acmeConfig emptyDisk) = Some (Failed TypeError)
   \<and> files (snd (snd (main 3
          (scriptedMain [jsonResponse 200 (tokenPayload (JBool True) (JStr ''tok'')),
                     jsonResponse 200 (listingPayload (Some [Some ''r1'', None]) (Some 2) (Some 100))])
          acmeConfig emptyDisk)))
       [''app'', ''output'', ''reservations-2026.json''] = Some ''[r1,null]''"
proof -
  let ?tp = "tokenPayload (JBool True) (JStr ''tok'') :: string option payload"
  let ?lp = "\<lambda>r. listingPayload (Some [Some ''r1'', r]) (Some 2) (Some 100)"
  let ?e = "\<lambda>r. scriptedMain [jsonResponse 200 ?tp, jsonResponse 200 (?lp r)]"
  let ?q1 = "buildRequest acme (tokenOptions acme) None"
  let ?c1 = "acme\<lparr>cookies := storeCookies [''TrackOwner=xyz''] (set_cookie (jsonResponse 200 ?tp)),
                   token := token_field ?tp\<rparr>"
  let ?q2 = "\<lambda>r. buildRequest ?c1 (reservationsOptions (?e r) ?c1 (now (?e r) 1)
                                 (startDate acmeConfig) (endDate acmeConfig) 1 PAGE_SIZE) None"
  let ?disk = "\<lambda>content. emptyDisk\<lparr>dirs := {[''app'']} \<union> set (prefixes [''app'', ''output'']),
                   files := (files emptyDisk)([''app'', ''output'', ''reservations-2026.json'']
                              \<mapsto> content)\<rparr>"
  have cfg: "cfg_domain acmeConfig = Some ''acme''" "''acme'' \<noteq> []"
    "sessionCookie acmeConfig = Some ''TrackOwner=xyz''" "''TrackOwner=xyz'' \<noteq> []"
    by (simp_all add: acmeConfig_def)
  have c0: "acme = \<lparr>domain = ''acme'', baseUrl = ''acme'' @ ''.trackhs.com'', token = JNull,
                    cookies = [''TrackOwner=xyz'']\<rparr>"
    by (simp add: acme_def)
  have scenario: "net (?e r) [?q1] = Inr (jsonResponse 200 ?tp) \<and> status (jsonResponse 200 ?tp) = 200
      \<and> data (jsonResponse 200 ?tp) = Object ?tp
      \<and> truthy (success_field ?tp) \<and> truthy (token_field ?tp)
      \<and> ?c1 = ?c1 \<and> ?q2 r = ?q2 r
      \<and> net (?e r) [?q1, ?q2 r] = Inr (jsonResponse 200 (?lp r))
      \<and> status (jsonResponse 200 (?lp r)) = 200
      \<and> data (jsonResponse 200 (?lp r)) = Object (?lp r)
      \<and> total_field (?lp r) = Some 2 \<and> size_field (?lp r) = Some 100
      \<and> embedded_reservations (?lp r) = Some [Some ''r1'', r]
      \<and> 0 < (3::nat)" for r
    by (simp add: scriptedMain_def jsonResponse_def tokenPayload_def listingPayload_def)
  have d: "outputDir (?e r) = [''app'', ''output'']" for r
    by (simp add: outputDir_def scriptedMain_def path_resolve_def startsWith_def walk_def)
  have b: "path_basename (outputFile acmeConfig) = ''reservations-2026.json''"
    by (simp add: path_basename_def acmeConfig_def)
  have mk: "mkdirRecursive [''app'', ''output''] emptyDisk
             = (Inr (), emptyDisk\<lparr>dirs := {[''app'']} \<union> set (prefixes [''app'', ''output''])\<rparr>)"
    by (simp add: mkdirRecursive_def emptyDisk_def)
  have sv: "saveReservations (?e r) [Some ''r1'', r] (outputFile acmeConfig) emptyDisk
             = (Inr (), ?disk (stringify (?e r) [Some ''r1'', r]))" for r
    by (simp add: saveReservations_def d mk filepath_def b path_join_def walk_def writeFile_def
        isDir_def)
  have st: "stringify (?e (Some ''r2'')) [Some ''r1'', Some ''r2''] = ''[r1,r2]''"
    "stringify (?e None) [Some ''r1'', None] = ''[r1,null]''"
    by (simp_all add: scriptedMain_def)
  have p1: "path ?q1 = ''/owner/api-token/''"
    by (simp add: buildRequest_def tokenOptions_def API_TOKEN_ENDPOINT_def)
  have p2: "path (?q2 r) = ''/api/v2/pms/reservations/?draw=1&search=&startDateRange=2026-01-01&endDateRange=2026-01-31&unitId=&size=100&page=1&sortColumn=id&sortDirection=asc&_=1767225600001''" for r
    by (simp add: buildRequest_def reservationsOptions_def RESERVATIONS_ENDPOINT_def PAGE_SIZE_def
        scriptedMain_def plainQuery_def acmeConfig_def)
  have "main 3 (?e r) acmeConfig emptyDisk =
            (case saveReservations (?e r) [Some ''r1'', r] (outputFile acmeConfig) emptyDisk of
               (Inl err, f') \<Rightarrow> (Some (Failed err), [?q1, ?q2 r], f')
             | (Inr u, f') \<Rightarrow>
                 (if Some ''r1'' = None \<or> r = None then Some (Failed TypeError)
                  else Some (Done [Some ''r1'', r]), [?q1, ?q2 r], f'))" for r
    using main_with_session_cookie [OF cfg c0 refl, where e = "?e r" and fuel = 3 and f = emptyDisk
      and tr = "jsonResponse 200 ?tp" and tp = ?tp and ?c1.0 = ?c1 and ?q2.0 = "?q2 r"
      and lr = "jsonResponse 200 (?lp r)" and lp = "?lp r" and ?r1.0 = "Some ''r1''" and ?r2.0 = r]
      scenario [of r]
    by blast
  then have run: "main 3 (?e r) acmeConfig emptyDisk
                    = (if r = None then Some (Failed TypeError) else Some (Done [Some ''r1'', r]),
                       [?q1, ?q2 r], ?disk (stringify (?e r) [Some ''r1'', r]))" for r
    by (simp only: sv prod.case sum.case option.distinct simp_thms)
  have g: "fst (main 3 (?e (Some ''r2'')) acmeConfig emptyDisk) = Some (Done [Some ''r1'', Some ''r2''])"
    "map path (fst (snd (main 3 (?e (Some ''r2'')) acmeConfig emptyDisk)))
       = [''/owner/api-token/'', ''/api/v2/pms/reservations/?draw=1&search=&startDateRange=2026-01-01&endDateRange=2026-01-31&unitId=&size=100&page=1&sortColumn=id&sortDirection=asc&_=1767225600001'']"
    "files (snd (snd (main 3 (?e (Some ''r2'')) acmeConfig emptyDisk)))
       [''app'', ''output'', ''reservations-2026.json''] = Some ''[r1,r2]''"
    unfolding run [of "Some ''r2''"] st
    by (simp_all only: fst_conv snd_conv list.map p1 p2 option.distinct if_False) simp_all
  have n: "fst (main 3 (?e None) acmeConfig emptyDisk) = Some (Failed TypeError)"
    "files (snd (snd (main 3 (?e None) acmeConfig emptyDisk)))
       [''app'', ''output'', ''reservations-2026.json''] = Some ''[r1,null]''"
    unfolding run [of None] st
    by (simp_all only: fst_conv snd_conv simp_thms if_True) simp_all
  from g n show ?thesis by simp
qed

section \<open>Persisting the result\<close>

lemma path_basename_no_slash: "CHR ''/'' \<notin> set (path_basename p)"
proof -
  have "\<forall>c \<in> set (takeWhile (\<lambda>c. c \<noteq> CHR ''/'') s). c \<noteq> CHR ''/''" for s
    by (auto dest: set_takeWhileD)
  then show ?thesis unfolding path_basename_def by (metis set_rev)
qed

lemma splitOn_no_sep: "sep \<notin> set s \<Longrightarrow> splitOn sep s = [s]"
  by (induction s) auto

lemma path_join_name: "CHR ''/'' \<notin> set name \<Longrightarrow> path_join dir name = walk dir name"
  by (simp add: path_join_def splitOn_no_sep)

lemma isDir_after_mkdir:
  "mkdirRecursive d f = (Inr u, f') \<Longrightarrow> p \<in> set (prefixes d) \<Longrightarrow> isDir f' p"
  by (auto simp: mkdirRecursive_def isDir_def split: if_splits)

lemma mkdirRecursive_files: "mkdirRecursive d f = (r, f') \<Longrightarrow> files f' = files f"
  by (auto simp: mkdirRecursive_def split: if_splits)

lemma butlast_in_prefixes: "butlast d \<in> set (prefixes d)"
  by (simp add: prefixeq_butlast)

text \<open>A write that succeeds is a write to a path that is not a directory.\<close>

lemma writeFile_ok:
  "writeFile p content f = (Inr u, f') \<Longrightarrow> \<not> isDir f p \<and> files f' = (files f)(p \<mapsto> content)"
  by (auto simp: writeFile_def split: if_splits)

lemma writeFile_failed: "writeFile p content f = (Inl err, f') \<Longrightarrow> files f' = files f"
  by (auto simp: writeFile_def split: if_splits)

text \<open>
  Claim C10. \<^verbatim>\<open>saveReservations\<close> writes to
  \<^verbatim>\<open>path.join(outputDir, path.basename(filename))\<close>, and the base name has no directory
  part left. For every file name: when the call succeeds, the output directory exists,
  the file written is the entry of that base name directly in the output directory, and
  no other file has changed; when the call fails (as it does for a name such as \<^verbatim>\<open>..\<close>,
  whose target is a directory), no file has changed at all.
\<close>

theorem saveReservations_writes_inside_outputDir:
  assumes "saveReservations e recs filename f = (r, f')"
  shows "filepath e filename = path_join (outputDir e) (path_basename filename)
       \<and> CHR ''/'' \<notin> set (path_basename filename)
       \<and> (case r of
            Inl err \<Rightarrow> files f' = files f
          | Inr u \<Rightarrow>
              filepath e filename = outputDir e @ [path_basename filename]
              \<and> files f' = (files f)(outputDir e @ [path_basename filename] \<mapsto> stringify e recs)
              \<and> isDir f' (outputDir e))"
proof (intro conjI)
  let ?d = "outputDir e" and ?b = "path_basename filename"
  show "filepath e filename = path_join ?d ?b"
    by (simp add: filepath_def)
  show ns: "CHR ''/'' \<notin> set ?b"
    by (rule path_basename_no_slash)
  have fp: "filepath e filename = walk ?d ?b"
    using ns by (simp add: filepath_def path_join_name)
  show "case r of
            Inl err \<Rightarrow> files f' = files f
          | Inr u \<Rightarrow>
              filepath e filename = ?d @ [?b]
              \<and> files f' = (files f)(?d @ [?b] \<mapsto> stringify e recs)
              \<and> isDir f' ?d"
  proof (cases "mkdirRecursive ?d f")
    case (Pair r1 f1)
    show ?thesis
    proof (cases r1)
      case (Inl err)
      with Pair assms have "r = Inl err" "f' = f1"
        by (simp_all add: saveReservations_def)
      moreover have "files f1 = files f"
        using Pair by (rule mkdirRecursive_files)
      ultimately show ?thesis by simp
    next
      case (Inr u1)
      with Pair have mk: "mkdirRecursive ?d f = (Inr u1, f1)" by simp
      have w: "writeFile (filepath e filename) (stringify e recs) f1 = (r, f')"
        using assms mk by (simp add: saveReservations_def)
      have f1: "files f1 = files f"
        using mk by (rule mkdirRecursive_files)
      have d1: "isDir f1 ?d"
        using mk by (rule isDir_after_mkdir) simp
      have d2: "isDir f1 (butlast ?d)"
        using mk butlast_in_prefixes by (rule isDir_after_mkdir)
      show ?thesis
      proof (cases r)
        case (Inl err)
        with w f1 show ?thesis by (simp add: writeFile_failed)
      next
        case (Inr u)
        with w have ok: "\<not> isDir f1 (filepath e filename)"
          "files f' = (files f1)(filepath e filename \<mapsto> stringify e recs)"
          by (simp_all add: writeFile_ok)
        from ok(1) d1 d2 have "walk ?d ?b = ?d @ [?b]"
          unfolding fp walk_def by (auto split: if_splits)
        with fp have t: "filepath e filename = ?d @ [?b]" by simp
        have "dirs f' = dirs f1"
          using w Inr by (auto simp: writeFile_def split: if_splits)
        with d1 have "isDir f' ?d" by (simp add: isDir_def)
        with Inr ok(2) t f1 show ?thesis by simp
      qed
    qed
  qed
qed

theorem saveReservations_writes_inside_outputDir_witness:
  "fst (saveReservations (scripted []) [''{}''] ''../../etc/reservations.json'' emptyDisk) = Inr ()
   \<and> filepath (scripted []) ''../../etc/reservations.json'' = [''app'', ''output'', ''reservations.json'']
   \<and> files (snd (saveReservations (scripted []) [''{}''] ''../../etc/reservations.json'' emptyDisk))
        [''app'', ''output'', ''reservations.json''] = Some ''[{}]''
   \<and> fst (saveReservations (scripted []) [''{}''] ''..'' emptyDisk) = Inl (FsError ''EISDIR'')
   \<and> files (snd (saveReservations (scripted []) [''{}''] ''..'' emptyDisk)) = Map.empty"
proof -
  let ?e = "scripted []"
  let ?s = "saveReservations ?e [''{}''] ''../../etc/reservations.json'' emptyDisk"
  let ?t = "saveReservations ?e [''{}''] ''..'' emptyDisk"
  have d: "outputDir ?e = [''app'', ''output'']"
    by (simp add: outputDir_def scripted_def path_resolve_def startsWith_def walk_def)
  have b: "path_basename ''../../etc/reservations.json'' = ''reservations.json''"
    by (simp add: path_basename_def)
  have b2: "path_basename ''..'' = ''..''"
    by (simp add: path_basename_def)
  have m: "mkdirRecursive [''app'', ''output''] emptyDisk
             = (Inr (), emptyDisk\<lparr>dirs := {[''app'']} \<union> set (prefixes [''app'', ''output''])\<rparr>)"
    by (simp add: mkdirRecursive_def emptyDisk_def)
  have r: "fst ?s = Inr ()"
    by (simp add: saveReservations_def d m filepath_def b path_join_def walk_def writeFile_def
        isDir_def)
  have r2: "fst ?t = Inl (FsError ''EISDIR'')"
    by (simp add: saveReservations_def d m filepath_def b2 path_join_def walk_def writeFile_def
        isDir_def)
  have s: "stringify ?e [''{}''] = ''[{}]''"
    by (simp add: scripted_def)
  have fe: "files emptyDisk = Map.empty"
    by (simp add: emptyDisk_def)
  have "case fst ?s of
          Inl err \<Rightarrow> files (snd ?s) = files emptyDisk
        | Inr u \<Rightarrow>
            filepath ?e ''../../etc/reservations.json''
              = outputDir ?e @ [path_basename ''../../etc/reservations.json'']
            \<and> files (snd ?s)
                = (files emptyDisk)(outputDir ?e @ [path_basename ''../../etc/reservations.json'']
                     \<mapsto> stringify ?e [''{}''])
            \<and> isDir (snd ?s) (outputDir ?e)"
    using saveReservations_writes_inside_outputDir [OF surjective_pairing] by blast
  then have a1: "filepath ?e ''../../etc/reservations.json''
              = outputDir ?e @ [path_basename ''../../etc/reservations.json'']
            \<and> files (snd ?s)
                = (files emptyDisk)(outputDir ?e @ [path_basename ''../../etc/reservations.json'']
                     \<mapsto> stringify ?e [''{}''])"
    unfolding r by simp
  have "case fst ?t of
          Inl err \<Rightarrow> files (snd ?t) = files emptyDisk
        | Inr u \<Rightarrow>
            filepath ?e ''..'' = outputDir ?e @ [path_basename ''..'']
            \<and> files (snd ?t)
                = (files emptyDisk)(outputDir ?e @ [path_basename ''..''] \<mapsto> stringify ?e [''{}''])
            \<and> isDir (snd ?t) (outputDir ?e)"
    using saveReservations_writes_inside_outputDir [OF surjective_pairing] by blast
  then have a2: "files (snd ?t) = files emptyDisk"
    unfolding r2 by simp
  from r r2 a1 a2 show ?thesis
    by (simp add: d b s fe)
qed

end
